theory Spec2Isabelle
  imports Main "HOL-Library.AList"
begin

section \<open>Data model of \<open>src/process/parse_doc_direct.py\<close>\<close>

text \<open>
  The module analyses one order (an \<open>arrete\<close>) at a time. Python values that are
  \<open>str\<close> or \<open>None\<close> are \<open>string option\<close>. A Python \<open>dict\<close> whose keys are added
  one by one is an association list in insertion order; a Python \<open>set\<close> is a HOL set.
  A \<open>pathlib.Path\<close> is the list of its components, \<open>Path.name\<close> the last one.
\<close>

type_synonym path = "string list"

definition path_name :: "path \<Rightarrow> string" where
  "path_name p = (if p = [] then [] else last p)"

datatype pyval = PyNone | PyStr string | PyPath path

type_synonym dict = "(string \<times> pyval) list"

text \<open>Truth value of a Python \<open>str | None\<close>: \<open>None\<close> and \<open>""\<close> are false.\<close>

definition falsy :: "string option \<Rightarrow> bool" where
  "falsy v = (case v of None \<Rightarrow> True | Some s \<Rightarrow> s = [])"

definition str_or_none :: "string option \<Rightarrow> pyval" where
  "str_or_none v = (case v of None \<Rightarrow> PyNone | Some s \<Rightarrow> PyStr s)"

text \<open>Exceptions that cross the functions of the module.\<close>

datatype exn = AssertionError | OtherException string

text \<open>What the module writes to the log (\<open>logging.warning\<close>, \<open>logging.error\<close>) and
  to standard output (\<open>print\<close>), in the order it is written.\<close>

datatype event =
    Warning_aucune_page path
  | Warning_accuse path "nat list" nat
  | Error_aucune_adresse string string
  | Warning_commune string
  | Print_get_codeinsee string "string option" "string option"
  | Print_adresse string "string option" "string option"
  | Warning_codeinsee string
  | Warning_cpostal string string "string option" "string option"

text \<open>One address as the address detector decomposes it (keys \<open>adr_num\<close> to
  \<open>adr_ville\<close>), and one address zone (keys \<open>adresse_brute\<close>, \<open>adresses\<close>).\<close>

record adr_doc =
  adr_num :: "string option"
  adr_ind :: "string option"
  adr_voie :: "string option"
  adr_compl :: "string option"
  adr_cpostal :: "string option"
  adr_ville :: "string option"

record zone =
  adresse_brute :: string
  zone_adresses :: "adr_doc list"

text \<open>One resolved address, as \<open>extract_adresses_commune\<close> returns it.\<close>

record adresse_rec =
  ad_brute :: string
  num :: "string option"
  ind :: "string option"
  voie :: "string option"
  compl :: "string option"
  cpostal :: "string option"
  ville :: "string option"
  adresse :: string
  codeinsee :: "string option"

text \<open>A typed span of the page classifier, the content of one page, and a span tagged
  with its page number.\<close>

record span =
  span_typ :: string
  span_txt :: string

record page_content =
  body :: string
  content :: "span list"

record span_pg = span +
  page_num :: nat

record notifie =
  id_proprio :: "string option"
  proprio :: string
  id_syndic :: "string option"
  syndic :: string
  id_gest :: "string option"
  gest :: string
  notifie_codeinsee :: "string option"

record parcelle =
  ref_cad :: string
  parcelle_codeinsee :: "string option"

record doc_data =
  adresses :: "adresse_rec list"
  arretes :: "dict list"
  notifies :: "notifie list"
  parcelles :: "parcelle set"

text \<open>
  The functions that \<open>parse_doc_direct.py\<close> imports from the other modules of the
  repository (detectors, geographic look-ups, normalisation, page classifier, file
  loader) are parameters of the model. \<open>get_codeinsee\<close> can raise (the source wraps it
  in \<open>try \<dots> except AssertionError\<close>) and \<open>create_adresse_normalisee\<close> checks the
  coherence of its fields; the other imported functions are taken to return.
  \<open>set_first\<close> stands for \<open>list(s)[0]\<close> on a non-empty Python set of strings, whose
  iteration order the source does not fix.
\<close>

record env =
  load_pages_text :: "path \<Rightarrow> string list"
  p_accuse_match :: "string \<Rightarrow> bool"
  parse_arrete_pages :: "string \<Rightarrow> string list \<Rightarrow> page_content list"
  process_date_brute :: "string \<Rightarrow> string"
  normalize_string :: "string \<Rightarrow> string"
  get_adr_doc :: "string \<Rightarrow> zone list"
  determine_commune :: "string option \<Rightarrow> string option \<Rightarrow> string option"
  get_codeinsee :: "string option \<Rightarrow> string option \<Rightarrow> exn + string option"
  get_codepostal :: "string option \<Rightarrow> string option \<Rightarrow> string option"
  create_adresse_normalisee ::
    "string option \<Rightarrow> string option \<Rightarrow> string option \<Rightarrow> string option \<Rightarrow>
     string option \<Rightarrow> string option \<Rightarrow> exn + string"
  get_classe :: "string \<Rightarrow> pyval"
  get_urgence :: "string \<Rightarrow> pyval"
  get_demo :: "string \<Rightarrow> pyval"
  get_int_hab :: "string \<Rightarrow> pyval"
  get_equ_com :: "string \<Rightarrow> pyval"
  get_proprio :: "string \<Rightarrow> string option"
  get_syndic :: "string \<Rightarrow> string option"
  get_gest :: "string \<Rightarrow> string option"
  get_parcelle :: "string \<Rightarrow> string option"
  generate_refcadastrale_norm ::
    "string option \<Rightarrow> string \<Rightarrow> string \<Rightarrow> string option \<Rightarrow> string"
  set_first :: "string set \<Rightarrow> string"

section \<open>\<open>extract_adresses_commune\<close>\<close>

text \<open>
  The body of \<open>for adresse in adresses\<close> (source lines 90--125) on one address of
  the zone. It returns what was logged and either the exception that left the loop or
  the completed address.
\<close>

definition adresse_loop_body ::
  "env \<Rightarrow> string \<Rightarrow> string option \<Rightarrow> string \<Rightarrow> adr_doc \<Rightarrow> event list \<times> (exn + adresse_rec)"
where
  "adresse_loop_body e fn_pdf commune_maire zone_brute x =
     (let ville1 = determine_commune e (adr_ville x) commune_maire;
          l1 = (if falsy ville1 then [Warning_commune fn_pdf] else [])
      in case get_codeinsee e ville1 (adr_cpostal x) of
           Inl err \<Rightarrow>
             (l1 @ (if err = AssertionError
                    then [Print_get_codeinsee fn_pdf ville1 (adr_cpostal x),
                          Print_adresse zone_brute ville1 (adr_cpostal x)]
                    else []),
              Inl err)
         | Inr codeinsee1 \<Rightarrow>
             (let l2 = (if falsy codeinsee1 then [Warning_codeinsee fn_pdf] else []);
                  cpostal1 = (if falsy (adr_cpostal x)
                              then get_codepostal e ville1 codeinsee1
                              else adr_cpostal x);
                  l3 = (if falsy (adr_cpostal x) \<and> falsy cpostal1
                        then [Warning_cpostal fn_pdf zone_brute ville1 codeinsee1]
                        else [])
              in case create_adresse_normalisee e (adr_num x) (adr_ind x) (adr_voie x)
                        (adr_compl x) cpostal1 ville1 of
                   Inl err \<Rightarrow> (l1 @ l2 @ l3, Inl err)
                 | Inr adr \<Rightarrow>
                     (l1 @ l2 @ l3,
                      Inr \<lparr>ad_brute = zone_brute, num = adr_num x, ind = adr_ind x,
                           voie = adr_voie x, compl = adr_compl x, cpostal = cpostal1,
                           ville = ville1, adresse = adr, codeinsee = codeinsee1\<rparr>)))"

fun adresse_loop ::
  "env \<Rightarrow> string \<Rightarrow> string option \<Rightarrow> string \<Rightarrow> adr_doc list \<Rightarrow>
   event list \<times> (exn + adresse_rec list)"
where
  "adresse_loop e fn_pdf commune_maire zone_brute [] = ([], Inr [])"
| "adresse_loop e fn_pdf commune_maire zone_brute (x # xs) =
     (case adresse_loop_body e fn_pdf commune_maire zone_brute x of
        (l, Inl err) \<Rightarrow> (l, Inl err)
      | (l, Inr a) \<Rightarrow>
          (case adresse_loop e fn_pdf commune_maire zone_brute xs of
             (l', Inl err) \<Rightarrow> (l @ l', Inl err)
           | (l', Inr as) \<Rightarrow> (l @ l', Inr (a # as))))"

definition extract_adresses_commune ::
  "env \<Rightarrow> string \<Rightarrow> string \<Rightarrow> string option \<Rightarrow> event list \<times> (exn + adresse_rec list)"
where
  "extract_adresses_commune e fn_pdf pg_txt_body commune_maire =
     (case get_adr_doc e pg_txt_body of
        [] \<Rightarrow> ([], Inr [])
      | adr0 # _ \<Rightarrow>
          (let l0 = (if zone_adresses adr0 = []
                     then [Error_aucune_adresse fn_pdf (adresse_brute adr0)] else [])
           in case adresse_loop e fn_pdf commune_maire (adresse_brute adr0)
                     (zone_adresses adr0) of
                (l, r) \<Rightarrow> (l0 @ l, r)))"

section \<open>\<open>parse_arrete\<close>\<close>

text \<open>The variables that the page loop of \<open>parse_arrete\<close> updates.\<close>

record loop_state =
  st_adresses :: "adresse_rec list"
  st_arretes :: dict
  st_proprios :: "string set"
  st_syndics :: "string set"
  st_gests :: "string set"
  st_parcelles :: "string set"
  st_codeinsee :: "string option"
  st_cpostal :: "string option"

text \<open>\<open>if k not in d: d[k] = v\<close>.\<close>

definition set_if_absent :: "dict \<Rightarrow> string \<Rightarrow> pyval \<Rightarrow> dict" where
  "set_if_absent d k v = (if map_of d k = None then AList.update k v d else d)"

text \<open>Source lines 234--247: the addresses, while none has been found.\<close>

definition step_adresses ::
  "env \<Rightarrow> string \<Rightarrow> string option \<Rightarrow> string \<Rightarrow> loop_state \<Rightarrow> event list \<times> (exn + loop_state)"
where
  "step_adresses e fn_pdf commune_maire pg_txt_body st =
     (if st_adresses st = [] then
        (case extract_adresses_commune e fn_pdf pg_txt_body commune_maire of
           (l, Inl err) \<Rightarrow> (l, Inl err)
         | (l, Inr pg_adresses) \<Rightarrow>
             (l, Inr (if pg_adresses \<noteq> [] then
                        (let adrs = st_adresses st @ pg_adresses
                         in st\<lparr>st_adresses := adrs,
                               st_codeinsee := codeinsee (hd adrs),
                               st_cpostal := cpostal (hd adrs)\<rparr>)
                      else st)))
      else ([], Inr st))"

text \<open>Source lines 249--267: the fields of the order.\<close>

definition step_arretes :: "env \<Rightarrow> string \<Rightarrow> path \<Rightarrow> string \<Rightarrow> loop_state \<Rightarrow> loop_state" where
  "step_arretes e fn_pdf fp_pdf_in pg_txt_body st =
     (let a1 = set_if_absent (st_arretes st) ''classe'' (get_classe e pg_txt_body);
          a2 = set_if_absent a1 ''urgence'' (get_urgence e pg_txt_body);
          a3 = set_if_absent a2 ''demo'' (get_demo e pg_txt_body);
          a4 = set_if_absent a3 ''int_hab'' (get_int_hab e pg_txt_body);
          a5 = set_if_absent a4 ''equ_com'' (get_equ_com e pg_txt_body);
          a6 = set_if_absent a5 ''pdf'' (PyStr fn_pdf);
          a7 = set_if_absent a6 ''url'' (PyPath fp_pdf_in);
          a8 = set_if_absent a7 ''codeinsee'' (str_or_none (st_codeinsee st))
      in st\<lparr>st_arretes := a8\<rparr>)"

text \<open>Source lines 269--284: the notified parties.\<close>

definition step_notifies :: "env \<Rightarrow> string \<Rightarrow> loop_state \<Rightarrow> loop_state" where
  "step_notifies e pg_txt_body st =
     (let st1 = (case get_proprio e pg_txt_body of
                   None \<Rightarrow> st
                 | Some proprios \<Rightarrow>
                     st\<lparr>st_proprios := insert (normalize_string e proprios) (st_proprios st)\<rparr>);
          st2 = (case get_syndic e pg_txt_body of
                   None \<Rightarrow> st1
                 | Some syndics \<Rightarrow>
                     st1\<lparr>st_syndics := insert (normalize_string e syndics) (st_syndics st1)\<rparr>)
      in case get_gest e pg_txt_body of
           None \<Rightarrow> st2
         | Some gests \<Rightarrow>
             st2\<lparr>st_gests := insert (normalize_string e gests) (st_gests st2)\<rparr>)"

text \<open>Source lines 286--294: the cadastral parcels.\<close>

definition step_parcelles :: "env \<Rightarrow> string \<Rightarrow> string \<Rightarrow> loop_state \<Rightarrow> loop_state" where
  "step_parcelles e fn_pdf pg_txt_body st =
     (let pg_parcelles_str = get_parcelle e pg_txt_body
      in if falsy pg_parcelles_str then st
         else st\<lparr>st_parcelles := st_parcelles st \<union>
                    {generate_refcadastrale_norm e (st_codeinsee st) (the pg_parcelles_str)
                       fn_pdf (st_cpostal st)}\<rparr>)"

text \<open>One iteration of \<open>for pg_txt_body in pages_body\<close> (source lines 231--294).\<close>

definition page_step ::
  "env \<Rightarrow> string \<Rightarrow> path \<Rightarrow> string option \<Rightarrow> loop_state \<Rightarrow> string \<Rightarrow>
   event list \<times> (exn + loop_state)"
where
  "page_step e fn_pdf fp_pdf_in commune_maire st pg_txt_body =
     (if pg_txt_body = [] then ([], Inr st)
      else case step_adresses e fn_pdf commune_maire pg_txt_body st of
             (l, Inl err) \<Rightarrow> (l, Inl err)
           | (l, Inr st1) \<Rightarrow>
               (l, Inr (step_parcelles e fn_pdf pg_txt_body
                          (step_notifies e pg_txt_body
                             (step_arretes e fn_pdf fp_pdf_in pg_txt_body st1)))))"

fun pages_loop ::
  "env \<Rightarrow> string \<Rightarrow> path \<Rightarrow> string option \<Rightarrow> loop_state \<Rightarrow> string list \<Rightarrow>
   event list \<times> (exn + loop_state)"
where
  "pages_loop e fn_pdf fp_pdf_in commune_maire st [] = ([], Inr st)"
| "pages_loop e fn_pdf fp_pdf_in commune_maire st (pg_txt_body # bs) =
     (case page_step e fn_pdf fp_pdf_in commune_maire st pg_txt_body of
        (l, Inl err) \<Rightarrow> (l, Inl err)
      | (l, Inr st1) \<Rightarrow>
          (case pages_loop e fn_pdf fp_pdf_in commune_maire st1 bs of
             (l', r) \<Rightarrow> (l @ l', r)))"

text \<open>Source lines 167--177: the pages of acknowledgement of receipt are blanked.\<close>

definition pages_ar :: "env \<Rightarrow> string list \<Rightarrow> nat list" where
  "pages_ar e pages = [i. (i, x) \<leftarrow> List.enumerate 1 pages, p_accuse_match e x]"

definition filt_pages :: "env \<Rightarrow> string list \<Rightarrow> string list" where
  "filt_pages e pages =
     [if i \<notin> set (pages_ar e pages) then x else []. (i, x) \<leftarrow> List.enumerate 1 pages]"

text \<open>Source lines 193--200: the bodies, and the flat sequence of spans with their
  page number.\<close>

definition pages_body :: "page_content list \<Rightarrow> string list" where
  "pages_body doc_content = [body pg_cont. pg_cont \<leftarrow> doc_content]"

definition pages_cont :: "page_content list \<Rightarrow> span_pg list" where
  "pages_cont doc_content =
     concat [[\<lparr>span_typ = span_typ x, span_txt = span_txt x, page_num = pg_num\<rparr>.
                x \<leftarrow> content pg_cont].
             (pg_num, pg_cont) \<leftarrow> List.enumerate 1 doc_content]"

text \<open>Source lines 204--216: date, number and title of the order.\<close>

definition arretes_init :: "env \<Rightarrow> span_pg list \<Rightarrow> dict" where
  "arretes_init e cont =
     (let arr_dates = [process_date_brute e (span_txt x). x \<leftarrow> cont, span_typ x = ''arr_date''];
          a1 = (if arr_dates \<noteq> []
                then AList.update ''date'' (PyStr (normalize_string e (hd arr_dates))) []
                else []);
          arr_nums = [span_txt x. x \<leftarrow> cont, span_typ x = ''num_arr''];
          a2 = (if arr_nums \<noteq> []
                then AList.update ''num_arr'' (PyStr (normalize_string e (hd arr_nums))) a1
                else a1);
          arr_noms = [span_txt x. x \<leftarrow> cont, span_typ x = ''nom_arr'']
      in if arr_noms \<noteq> []
         then AList.update ''nom_arr'' (PyStr (normalize_string e (hd arr_noms))) a2
         else a2)"

text \<open>Source lines 219--225: the municipality of the issuing authority.\<close>

definition adr_commune_maire :: "env \<Rightarrow> span_pg list \<Rightarrow> string option" where
  "adr_commune_maire e cont =
     (let adrs_commune_maire = [x. x \<leftarrow> cont, span_typ x = ''adr_ville'']
      in if adrs_commune_maire = [] then None
         else Some (normalize_string e (span_txt (hd adrs_commune_maire))))"

definition init_state :: "dict \<Rightarrow> loop_state" where
  "init_state a =
     \<lparr>st_adresses = [], st_arretes = a, st_proprios = {}, st_syndics = {}, st_gests = {},
      st_parcelles = {}, st_codeinsee = None, st_cpostal = None\<rparr>"

text \<open>Source lines 305--333: the fallback for an empty order, and the four tables.\<close>

definition finalize :: "env \<Rightarrow> string \<Rightarrow> path \<Rightarrow> loop_state \<Rightarrow> doc_data" where
  "finalize e fn_pdf fp_pdf_in st =
     (let arretes1 = (if st_arretes st = []
                      then [(''pdf'', PyStr fn_pdf), (''url'', PyPath fp_pdf_in)]
                      else st_arretes st)
      in \<lparr>adresses = st_adresses st,
          arretes = [arretes1],
          notifies =
            [\<lparr>id_proprio = (if st_proprios st \<noteq> {} then Some (set_first e (st_proprios st))
                             else None),
              proprio = ''TODO_proprio'',
              id_syndic = (if st_syndics st \<noteq> {} then Some (set_first e (st_syndics st))
                           else None),
              syndic = ''TODO_syndic'',
              id_gest = (if st_gests st \<noteq> {} then Some (set_first e (st_gests st))
                         else None),
              gest = ''TODO_gest'',
              notifie_codeinsee = st_codeinsee st\<rparr>],
          parcelles =
            (\<lambda>x. \<lparr>ref_cad = x, parcelle_codeinsee = st_codeinsee st\<rparr>) ` st_parcelles st\<rparr>)"

definition parse_arrete :: "env \<Rightarrow> path \<Rightarrow> path \<Rightarrow> event list \<times> (exn + doc_data)" where
  "parse_arrete e fp_pdf_in fp_txt_in =
     (let fn_pdf = path_name fp_pdf_in;
          pages = load_pages_text e fp_txt_in
      in if \<not> (\<exists>x \<in> set pages. x \<noteq> []) then
           ([Warning_aucune_page fp_txt_in],
            Inr \<lparr>adresses = [],
                 arretes = [[(''pdf'', PyStr fn_pdf), (''url'', PyPath fp_pdf_in)]],
                 notifies = [],
                 parcelles = {}\<rparr>)
         else
           (let l0 = (if pages_ar e pages \<noteq> []
                      then [Warning_accuse fp_txt_in (pages_ar e pages) (length pages)]
                      else []);
                doc_content = parse_arrete_pages e fn_pdf (filt_pages e pages);
                cont = pages_cont doc_content
            in case pages_loop e fn_pdf fp_pdf_in (adr_commune_maire e cont)
                      (init_state (arretes_init e cont)) (pages_body doc_content) of
                 (l, Inl err) \<Rightarrow> (l0 @ l, Inl err)
               | (l, Inr st) \<Rightarrow> (l0 @ l, Inr (finalize e fn_pdf fp_pdf_in st))))"

text \<open>Names for three parts of \<open>parse_arrete\<close> that the statements below refer to:
  \<open>any(pages)\<close>, the local variable \<open>doc_content\<close>, and the page loop run from the
  initial values of its variables.\<close>

definition any_page :: "env \<Rightarrow> path \<Rightarrow> bool" where
  "any_page e fp_txt_in = (\<exists>x \<in> set (load_pages_text e fp_txt_in). x \<noteq> [])"

definition doc_content :: "env \<Rightarrow> path \<Rightarrow> path \<Rightarrow> page_content list" where
  "doc_content e fp_pdf_in fp_txt_in =
     parse_arrete_pages e (path_name fp_pdf_in) (filt_pages e (load_pages_text e fp_txt_in))"

definition doc_hint :: "env \<Rightarrow> path \<Rightarrow> path \<Rightarrow> string option" where
  "doc_hint e fp_pdf_in fp_txt_in =
     adr_commune_maire e (pages_cont (doc_content e fp_pdf_in fp_txt_in))"

definition doc_loop :: "env \<Rightarrow> path \<Rightarrow> path \<Rightarrow> event list \<times> (exn + loop_state)" where
  "doc_loop e fp_pdf_in fp_txt_in =
     pages_loop e (path_name fp_pdf_in) fp_pdf_in (doc_hint e fp_pdf_in fp_txt_in)
       (init_state (arretes_init e (pages_cont (doc_content e fp_pdf_in fp_txt_in))))
       (pages_body (doc_content e fp_pdf_in fp_txt_in))"

text \<open>The first span of a given type in the flat sequence, and the first page body
  that is not empty.\<close>

definition first_occurrence :: "span_pg list \<Rightarrow> string \<Rightarrow> string option" where
  "first_occurrence cont typ = map_option span_txt (List.find (\<lambda>x. span_typ x = typ) cont)"

definition first_body :: "string list \<Rightarrow> string option" where
  "first_body bs = List.find (\<lambda>b. b \<noteq> []) bs"

text \<open>The document's INSEE and postal codes are those of the first address, if any.\<close>

definition codes_from_first :: "loop_state \<Rightarrow> bool" where
  "codes_from_first st =
     (case st_adresses st of
        [] \<Rightarrow> st_codeinsee st = None \<and> st_cpostal st = None
      | a # _ \<Rightarrow> st_codeinsee st = codeinsee a \<and> st_cpostal st = cpostal a)"

text \<open>The normalised detections of one notified-party detector over the page bodies.\<close>

definition detections :: "env \<Rightarrow> (string \<Rightarrow> string option) \<Rightarrow> string list \<Rightarrow> string set" where
  "detections e g bs =
     set (List.map_filter
            (\<lambda>b. if b = [] then None else map_option (normalize_string e) (g b)) bs)"

text \<open>A page that leaves the address list empty: its body is empty, or the extraction
  returns no address.\<close>

definition page_sans_adresse :: "env \<Rightarrow> string \<Rightarrow> string option \<Rightarrow> string \<Rightarrow> bool" where
  "page_sans_adresse e fn_pdf commune_maire b =
     (b = [] \<or> snd (extract_adresses_commune e fn_pdf b commune_maire) = Inr [])"

text \<open>The warnings that accompany an address whose municipality or INSEE code is
  empty.\<close>

definition soft_miss_logged :: "string \<Rightarrow> event list \<Rightarrow> adresse_rec \<Rightarrow> bool" where
  "soft_miss_logged fn_pdf l a =
     ((falsy (ville a) \<longrightarrow> Warning_commune fn_pdf \<in> set l) \<and>
      (falsy (codeinsee a) \<longrightarrow> Warning_codeinsee fn_pdf \<in> set l))"



section \<open>Example documents\<close>

text \<open>
  A small environment on which the theorems below are instantiated. The text file
  \<open>doc.txt\<close> has three pages: page 1 carries three spans, an owner and a parcel, page 2
  an address zone from which no address is extracted, page 3 two address zones, a
  classification and the same owner in capitals. \<open>autre.txt\<close> has the same first
  page followed by a page on which nothing is detected. \<open>simple.txt\<close> has one page on which
  nothing is detected, \<open>ar.txt\<close> a single page of acknowledgement of receipt,
  \<open>vide.txt\<close> two pages without text, and \<open>incoherent.txt\<close> one page whose address
  has neither municipality nor postal code.
\<close>

definition ex_adr :: adr_doc where
  "ex_adr = \<lparr>adr_num = Some ''12'', adr_ind = None, adr_voie = Some ''rue X'',
             adr_compl = None, adr_cpostal = Some ''13001'', adr_ville = Some ''Marseille''\<rparr>"

definition ex_adr_bis :: adr_doc where
  "ex_adr_bis = \<lparr>adr_num = Some ''7'', adr_ind = None, adr_voie = Some ''rue Y'',
                 adr_compl = None, adr_cpostal = Some ''13002'', adr_ville = Some ''Marseille''\<rparr>"

definition ex_adr_sans_ville :: adr_doc where
  "ex_adr_sans_ville = \<lparr>adr_num = Some ''3'', adr_ind = None, adr_voie = Some ''rue Z'',
                        adr_compl = None, adr_cpostal = None, adr_ville = None\<rparr>"

definition ex_env :: env where
  "ex_env =
     \<lparr>load_pages_text = (\<lambda>p.
         if p = [''doc.txt''] then [''p1'', ''p2'', ''p3'']
         else if p = [''autre.txt''] then [''p1'', ''q1'']
         else if p = [''simple.txt''] then [''q1'']
         else if p = [''ar.txt''] then [''AR'']
         else if p = [''incoherent.txt''] then [''r1'']
         else [[], []]),
      p_accuse_match = (\<lambda>x. x = ''AR''),
      parse_arrete_pages = (\<lambda>fn_pdf pages.
         map (\<lambda>x. \<lparr>body = x,
                    content = (if x = ''p1''
                               then [\<lparr>span_typ = ''arr_date'', span_txt = ''1er mars 2020''\<rparr>,
                                     \<lparr>span_typ = ''num_arr'', span_txt = ''2020_01''\<rparr>,
                                     \<lparr>span_typ = ''adr_ville'', span_txt = ''Marseille''\<rparr>]
                               else [])\<rparr>) pages),
      process_date_brute = (\<lambda>s. if s = ''1er mars 2020'' then ''01/03/2020'' else s),
      normalize_string = (\<lambda>s. if s = ''DUPONT'' then ''Dupont'' else s),
      get_adr_doc = (\<lambda>b.
         if b = ''p2'' then [\<lparr>adresse_brute = ''zone A'', zone_adresses = []\<rparr>]
         else if b = ''p3'' then [\<lparr>adresse_brute = ''zone B'', zone_adresses = [ex_adr]\<rparr>,
                                 \<lparr>adresse_brute = ''zone C'', zone_adresses = [ex_adr_bis]\<rparr>]
         else if b = ''r1'' then [\<lparr>adresse_brute = ''zone D'',
                                   zone_adresses = [ex_adr_sans_ville]\<rparr>]
         else []),
      determine_commune = (\<lambda>v h. if falsy v then h else v),
      get_codeinsee = (\<lambda>v c. Inr (if c = Some ''13001'' then Some ''13201'' else None)),
      get_codepostal = (\<lambda>v c. None),
      create_adresse_normalisee = (\<lambda>n i v c cp vi.
         if falsy vi then Inl (OtherException ''adresse incoherente'')
         else Inr (the v @ '', '' @ the vi)),
      get_classe = (\<lambda>b. if b = ''p3'' then PyStr ''Arrete de peril'' else PyNone),
      get_urgence = (\<lambda>b. PyNone),
      get_demo = (\<lambda>b. PyNone),
      get_int_hab = (\<lambda>b. PyNone),
      get_equ_com = (\<lambda>b. PyNone),
      get_proprio = (\<lambda>b. if b = ''p1'' then Some ''Dupont''
                           else if b = ''p3'' then Some ''DUPONT'' else None),
      get_syndic = (\<lambda>b. None),
      get_gest = (\<lambda>b. None),
      get_parcelle = (\<lambda>b. if b = ''p1'' then Some ''AB 12'' else None),
      generate_refcadastrale_norm = (\<lambda>ci s fn_pdf cp.
         (case ci of None \<Rightarrow> ''?'' | Some c \<Rightarrow> c) @ s),
      set_first = (\<lambda>S. if ''Dupont'' \<in> S then ''Dupont'' else [])\<rparr>"




section \<open>Basic facts about the steps of the page loop\<close>

lemma map_of_set_if_absent:
  "map_of (set_if_absent d k v) k' =
     (if k' = k \<and> map_of d k = None then Some v else map_of d k')"
  by (simp add: set_if_absent_def update_conv')

lemma set_if_absent_nonempty: "set_if_absent d k v \<noteq> []"
  by (cases d) (auto simp: set_if_absent_def)

lemma step_arretes_fields [simp]:
  "st_adresses (step_arretes e fn fp b st) = st_adresses st"
  "st_codeinsee (step_arretes e fn fp b st) = st_codeinsee st"
  "st_cpostal (step_arretes e fn fp b st) = st_cpostal st"
  "st_proprios (step_arretes e fn fp b st) = st_proprios st"
  "st_syndics (step_arretes e fn fp b st) = st_syndics st"
  "st_gests (step_arretes e fn fp b st) = st_gests st"
  "st_parcelles (step_arretes e fn fp b st) = st_parcelles st"
  by (simp_all add: step_arretes_def Let_def)

lemma step_notifies_fields [simp]:
  "st_adresses (step_notifies e b st) = st_adresses st"
  "st_arretes (step_notifies e b st) = st_arretes st"
  "st_codeinsee (step_notifies e b st) = st_codeinsee st"
  "st_cpostal (step_notifies e b st) = st_cpostal st"
  "st_parcelles (step_notifies e b st) = st_parcelles st"
  by (simp_all add: step_notifies_def Let_def split: option.split)

lemma step_parcelles_fields [simp]:
  "st_adresses (step_parcelles e fn b st) = st_adresses st"
  "st_arretes (step_parcelles e fn b st) = st_arretes st"
  "st_codeinsee (step_parcelles e fn b st) = st_codeinsee st"
  "st_cpostal (step_parcelles e fn b st) = st_cpostal st"
  "st_proprios (step_parcelles e fn b st) = st_proprios st"
  "st_syndics (step_parcelles e fn b st) = st_syndics st"
  "st_gests (step_parcelles e fn b st) = st_gests st"
  by (simp_all add: step_parcelles_def Let_def)

lemma step_adresses_cases:
  assumes "step_adresses e fn h b st = (l, r)"
  shows "(st_adresses st \<noteq> [] \<and> l = [] \<and> r = Inr st) \<or>
         (st_adresses st = [] \<and>
          (\<exists>err. extract_adresses_commune e fn b h = (l, Inl err) \<and> r = Inl err)) \<or>
         (st_adresses st = [] \<and> extract_adresses_commune e fn b h = (l, Inr []) \<and> r = Inr st) \<or>
         (st_adresses st = [] \<and>
          (\<exists>a as. extract_adresses_commune e fn b h = (l, Inr (a # as)) \<and>
             r = Inr (st\<lparr>st_adresses := a # as, st_codeinsee := codeinsee a,
                           st_cpostal := cpostal a\<rparr>)))"
proof (cases "extract_adresses_commune e fn b h")
  case (Pair l' r')
  show ?thesis
  proof (cases r')
    case (Inl err)
    with Pair assms show ?thesis
      by (auto simp: step_adresses_def split: if_splits)
  next
    case (Inr adrs)
    with Pair assms show ?thesis
      by (cases adrs) (auto simp: step_adresses_def Let_def split: if_splits)
  qed
qed

lemma step_adresses_keeps:
  assumes "step_adresses e fn h b st = (l, Inr st1)"
  shows "st_arretes st1 = st_arretes st" "st_proprios st1 = st_proprios st"
        "st_syndics st1 = st_syndics st" "st_gests st1 = st_gests st"
        "st_parcelles st1 = st_parcelles st"
  using step_adresses_cases [OF assms] by auto

lemma page_step_cases:
  assumes "page_step e fn fp h st b = (l, r)"
  shows "(b = [] \<and> l = [] \<and> r = Inr st) \<or>
         (b \<noteq> [] \<and> (\<exists>err. step_adresses e fn h b st = (l, Inl err) \<and> r = Inl err)) \<or>
         (b \<noteq> [] \<and> (\<exists>st1. step_adresses e fn h b st = (l, Inr st1) \<and>
            r = Inr (step_parcelles e fn b (step_notifies e b (step_arretes e fn fp b st1)))))"
  using assms
  by (cases "step_adresses e fn h b st")
     (auto simp: page_step_def split: if_splits sum.splits)

lemma pages_loop_all_empty:
  "\<forall>b \<in> set bs. b = [] \<Longrightarrow> pages_loop e fn fp h st bs = ([], Inr st)"
  by (induction bs) (simp_all add: page_step_def)

lemma parse_arrete_no_page:
  "\<not> any_page e ft \<Longrightarrow>
   parse_arrete e fp ft =
     ([Warning_aucune_page ft],
      Inr \<lparr>adresses = [],
           arretes = [[(''pdf'', PyStr (path_name fp)), (''url'', PyPath fp)]],
           notifies = [], parcelles = {}\<rparr>)"
  by (simp add: parse_arrete_def any_page_def Let_def)

lemma parse_arrete_any_page:
  "any_page e ft \<Longrightarrow>
   parse_arrete e fp ft =
     (case doc_loop e fp ft of
        (l, Inl err) \<Rightarrow>
          ((if pages_ar e (load_pages_text e ft) \<noteq> []
            then [Warning_accuse ft (pages_ar e (load_pages_text e ft))
                    (length (load_pages_text e ft))] else []) @ l, Inl err)
      | (l, Inr st) \<Rightarrow>
          ((if pages_ar e (load_pages_text e ft) \<noteq> []
            then [Warning_accuse ft (pages_ar e (load_pages_text e ft))
                    (length (load_pages_text e ft))] else []) @ l,
           Inr (finalize e (path_name fp) fp st)))"
  by (auto simp add: parse_arrete_def any_page_def doc_loop_def doc_hint_def doc_content_def Let_def
        split: prod.splits sum.splits)

lemma parse_arrete_Inr:
  assumes "any_page e ft" "parse_arrete e fp ft = (l, Inr r)"
  shows "\<exists>l' st. doc_loop e fp ft = (l', Inr st) \<and> r = finalize e (path_name fp) fp st"
  using assms(2) unfolding parse_arrete_any_page [OF assms(1)]
  by (cases "doc_loop e fp ft") (auto split: sum.splits)

section \<open>The order record through the page loop\<close>

lemma set_if_absent_keeps:
  "map_of d k = Some v \<Longrightarrow> map_of (set_if_absent d k' v') k = Some v"
  by (auto simp: map_of_set_if_absent)

lemma step_arretes_keeps_key:
  "map_of (st_arretes st) k = Some v \<Longrightarrow>
   map_of (st_arretes (step_arretes e fn fp b st)) k = Some v"
  by (simp add: step_arretes_def Let_def set_if_absent_keeps)

lemma step_arretes_other_key:
  "k \<notin> {''classe'', ''urgence'', ''demo'', ''int_hab'', ''equ_com'', ''pdf'', ''url'', ''codeinsee''} \<Longrightarrow>
   map_of (st_arretes (step_arretes e fn fp b st)) k = map_of (st_arretes st) k"
  by (simp add: step_arretes_def Let_def map_of_set_if_absent)

lemma step_arretes_classif:
  assumes "map_of (st_arretes st) k = None"
  shows "k = ''classe'' \<Longrightarrow> map_of (st_arretes (step_arretes e fn fp b st)) k = Some (get_classe e b)"
    and "k = ''urgence'' \<Longrightarrow> map_of (st_arretes (step_arretes e fn fp b st)) k = Some (get_urgence e b)"
    and "k = ''demo'' \<Longrightarrow> map_of (st_arretes (step_arretes e fn fp b st)) k = Some (get_demo e b)"
    and "k = ''int_hab'' \<Longrightarrow> map_of (st_arretes (step_arretes e fn fp b st)) k = Some (get_int_hab e b)"
    and "k = ''equ_com'' \<Longrightarrow> map_of (st_arretes (step_arretes e fn fp b st)) k = Some (get_equ_com e b)"
  using assms by (simp_all add: step_arretes_def Let_def map_of_set_if_absent)

lemma step_arretes_nonempty: "st_arretes (step_arretes e fn fp b st) \<noteq> []"
  by (simp add: step_arretes_def Let_def set_if_absent_nonempty)

lemma page_step_arretes:
  assumes "page_step e fn fp h st b = (l, Inr st')"
  shows "(b = [] \<and> st_arretes st' = st_arretes st) \<or>
         (b \<noteq> [] \<and> (\<exists>st1. st_arretes st1 = st_arretes st \<and>
                        st_arretes st' = st_arretes (step_arretes e fn fp b st1)))"
  using page_step_cases [OF assms] step_adresses_keeps(1) by fastforce

lemma pages_loop_Cons_Inr:
  assumes "pages_loop e fn fp h st (b # bs) = (l, Inr st')"
  shows "\<exists>l1 l2 st1. page_step e fn fp h st b = (l1, Inr st1) \<and>
           pages_loop e fn fp h st1 bs = (l2, Inr st') \<and> l = l1 @ l2"
  using assms
  by (cases "page_step e fn fp h st b")
     (auto split: sum.splits prod.splits)

lemma pages_loop_keeps_key:
  "map_of (st_arretes st) k = Some v \<Longrightarrow> pages_loop e fn fp h st bs = (l, Inr st') \<Longrightarrow>
   map_of (st_arretes st') k = Some v"
proof (induction bs arbitrary: st l)
  case Nil
  then show ?case by simp
next
  case (Cons b bs)
  from pages_loop_Cons_Inr [OF Cons.prems(2)] obtain l1 l2 st1 where
    s: "page_step e fn fp h st b = (l1, Inr st1)" and
    r: "pages_loop e fn fp h st1 bs = (l2, Inr st')" by blast
  from page_step_arretes [OF s] Cons.prems(1)
  have "map_of (st_arretes st1) k = Some v"
    by (auto simp: step_arretes_keeps_key)
  from Cons.IH [OF this r] show ?case .
qed

lemma pages_loop_other_key:
  "k \<notin> {''classe'', ''urgence'', ''demo'', ''int_hab'', ''equ_com'', ''pdf'', ''url'', ''codeinsee''} \<Longrightarrow>
   pages_loop e fn fp h st bs = (l, Inr st') \<Longrightarrow>
   map_of (st_arretes st') k = map_of (st_arretes st) k"
proof (induction bs arbitrary: st l)
  case Nil
  then show ?case by simp
next
  case (Cons b bs)
  from pages_loop_Cons_Inr [OF Cons.prems(2)] obtain l1 l2 st1 where
    s: "page_step e fn fp h st b = (l1, Inr st1)" and
    r: "pages_loop e fn fp h st1 bs = (l2, Inr st')" by blast
  from page_step_arretes [OF s] Cons.prems(1)
  have "map_of (st_arretes st1) k = map_of (st_arretes st) k"
    by (auto simp: step_arretes_other_key)
  with Cons.IH [OF Cons.prems(1) r] show ?case by simp
qed

lemma pages_loop_first_body:
  assumes "first_body bs = Some b" "pages_loop e fn fp h st bs = (l, Inr st')"
  shows "\<exists>st0. st_arretes st0 = st_arretes st \<and>
           (\<forall>k v. map_of (st_arretes (step_arretes e fn fp b st0)) k = Some v \<longrightarrow>
                  map_of (st_arretes st') k = Some v)"
  using assms
proof (induction bs arbitrary: st l)
  case Nil
  then show ?case by (simp add: first_body_def)
next
  case (Cons c bs)
  from pages_loop_Cons_Inr [OF Cons.prems(2)] obtain l1 l2 st1 where
    s: "page_step e fn fp h st c = (l1, Inr st1)" and
    r: "pages_loop e fn fp h st1 bs = (l2, Inr st')" by blast
  show ?case
  proof (cases "c = []")
    case True
    with s have "st1 = st" by (simp add: page_step_def)
    moreover from True Cons.prems(1) have "first_body bs = Some b"
      by (simp add: first_body_def)
    ultimately show ?thesis using Cons.IH r by blast
  next
    case False
    with Cons.prems(1) have cb: "c = b" by (simp add: first_body_def)
    from page_step_arretes [OF s] False cb obtain st0 where
      "st_arretes st0 = st_arretes st" "st_arretes st1 = st_arretes (step_arretes e fn fp b st0)"
      by auto
    then show ?thesis using pages_loop_keeps_key [OF _ r] by metis
  qed
qed

lemma pages_loop_classif:
  assumes "first_body bs = Some b" "pages_loop e fn fp h st bs = (l, Inr st')"
      and "map_of (st_arretes st) k = None"
  shows "k = ''classe'' \<Longrightarrow> map_of (st_arretes st') k = Some (get_classe e b)"
    and "k = ''urgence'' \<Longrightarrow> map_of (st_arretes st') k = Some (get_urgence e b)"
    and "k = ''demo'' \<Longrightarrow> map_of (st_arretes st') k = Some (get_demo e b)"
    and "k = ''int_hab'' \<Longrightarrow> map_of (st_arretes st') k = Some (get_int_hab e b)"
    and "k = ''equ_com'' \<Longrightarrow> map_of (st_arretes st') k = Some (get_equ_com e b)"
proof -
  from pages_loop_first_body [OF assms(1,2)] obtain st0 where
    a: "st_arretes st0 = st_arretes st" and
    b: "\<And>k v. map_of (st_arretes (step_arretes e fn fp b st0)) k = Some v \<Longrightarrow>
               map_of (st_arretes st') k = Some v" by blast
  from a assms(3) have n: "map_of (st_arretes st0) k = None" by simp
  show "k = ''classe'' \<Longrightarrow> map_of (st_arretes st') k = Some (get_classe e b)"
    using b step_arretes_classif(1) [OF n] by blast
  show "k = ''urgence'' \<Longrightarrow> map_of (st_arretes st') k = Some (get_urgence e b)"
    using b step_arretes_classif(2) [OF n] by blast
  show "k = ''demo'' \<Longrightarrow> map_of (st_arretes st') k = Some (get_demo e b)"
    using b step_arretes_classif(3) [OF n] by blast
  show "k = ''int_hab'' \<Longrightarrow> map_of (st_arretes st') k = Some (get_int_hab e b)"
    using b step_arretes_classif(4) [OF n] by blast
  show "k = ''equ_com'' \<Longrightarrow> map_of (st_arretes st') k = Some (get_equ_com e b)"
    using b step_arretes_classif(5) [OF n] by blast
qed

lemma pages_loop_arretes_nonempty:
  assumes "first_body bs = Some b" "pages_loop e fn fp h st bs = (l, Inr st')"
  shows "st_arretes st' \<noteq> []"
proof -
  from pages_loop_first_body [OF assms] obtain st0 where
    b: "\<And>k v. map_of (st_arretes (step_arretes e fn fp b st0)) k = Some v \<Longrightarrow>
               map_of (st_arretes st') k = Some v" by blast
  have "map_of (st_arretes (step_arretes e fn fp b st0)) ''pdf'' \<noteq> None"
    by (simp add: step_arretes_def Let_def map_of_set_if_absent)
  with b have "map_of (st_arretes st') ''pdf'' \<noteq> None" by fastforce
  then show ?thesis by auto
qed

lemma comprehension_find:
  "(case [f x. x \<leftarrow> xs, P x] of [] \<Rightarrow> None | y # _ \<Rightarrow> Some y) = map_option f (List.find P xs)"
  by (induction xs) auto

lemma arretes_init_keys:
  "map_of (arretes_init e cont) k =
     (if k = ''date'' then
        map_option (\<lambda>t. PyStr (normalize_string e (process_date_brute e t)))
          (first_occurrence cont ''arr_date'')
      else if k = ''num_arr'' then
        map_option (\<lambda>t. PyStr (normalize_string e t)) (first_occurrence cont ''num_arr'')
      else if k = ''nom_arr'' then
        map_option (\<lambda>t. PyStr (normalize_string e t)) (first_occurrence cont ''nom_arr'')
      else None)"
proof -
  define ds where "ds = [process_date_brute e (span_txt x). x \<leftarrow> cont, span_typ x = ''arr_date'']"
  define ns where "ns = [span_txt x. x \<leftarrow> cont, span_typ x = ''num_arr'']"
  define ms where "ms = [span_txt x. x \<leftarrow> cont, span_typ x = ''nom_arr'']"
  have d: "map_option (process_date_brute e) (first_occurrence cont ''arr_date'')
             = (case ds of [] \<Rightarrow> None | y # _ \<Rightarrow> Some y)"
    unfolding ds_def first_occurrence_def
    using comprehension_find [where f = "\<lambda>x. process_date_brute e (span_txt x)"
            and P = "\<lambda>x. span_typ x = ''arr_date''" and xs = cont]
    by (simp add: option.map_comp comp_def)
  have n: "first_occurrence cont ''num_arr'' = (case ns of [] \<Rightarrow> None | y # _ \<Rightarrow> Some y)"
    unfolding ns_def first_occurrence_def
    using comprehension_find [where f = span_txt and P = "\<lambda>x. span_typ x = ''num_arr''"
            and xs = cont]
    by simp
  have m: "first_occurrence cont ''nom_arr'' = (case ms of [] \<Rightarrow> None | y # _ \<Rightarrow> Some y)"
    unfolding ms_def first_occurrence_def
    using comprehension_find [where f = span_txt and P = "\<lambda>x. span_typ x = ''nom_arr''"
            and xs = cont]
    by simp
  have d': "map_option (\<lambda>t. PyStr (normalize_string e (process_date_brute e t)))
              (first_occurrence cont ''arr_date'')
            = map_option (\<lambda>t. PyStr (normalize_string e t)) (case ds of [] \<Rightarrow> None | y # _ \<Rightarrow> Some y)"
    unfolding d [symmetric] by (simp add: option.map_comp comp_def)
  have a: "arretes_init e cont =
      (let a1 = (if ds \<noteq> [] then AList.update ''date'' (PyStr (normalize_string e (hd ds))) [] else []);
           a2 = (if ns \<noteq> [] then AList.update ''num_arr'' (PyStr (normalize_string e (hd ns))) a1 else a1)
       in if ms \<noteq> [] then AList.update ''nom_arr'' (PyStr (normalize_string e (hd ms))) a2 else a2)"
    unfolding arretes_init_def ds_def ns_def ms_def Let_def by (rule refl)
  show ?thesis
    unfolding a d' n m Let_def
    by (cases ds; cases ns; cases ms) (simp_all add: update_conv')
qed

section \<open>Codes and notified parties through the page loop\<close>

lemma finalize_arretes:
  "arretes (finalize e fn fp st) =
     [if st_arretes st = [] then [(''pdf'', PyStr fn), (''url'', PyPath fp)] else st_arretes st]"
  by (simp add: finalize_def Let_def)

lemma finalize_fields:
  "adresses (finalize e fn fp st) = st_adresses st"
  "notifies (finalize e fn fp st) =
     [\<lparr>id_proprio = (if st_proprios st \<noteq> {} then Some (set_first e (st_proprios st)) else None),
       proprio = ''TODO_proprio'',
       id_syndic = (if st_syndics st \<noteq> {} then Some (set_first e (st_syndics st)) else None),
       syndic = ''TODO_syndic'',
       id_gest = (if st_gests st \<noteq> {} then Some (set_first e (st_gests st)) else None),
       gest = ''TODO_gest'',
       notifie_codeinsee = st_codeinsee st\<rparr>]"
  "parcelles (finalize e fn fp st) =
     (\<lambda>x. \<lparr>ref_cad = x, parcelle_codeinsee = st_codeinsee st\<rparr>) ` st_parcelles st"
  by (simp_all add: finalize_def Let_def)

lemma codes_from_first_init: "codes_from_first (init_state a)"
  by (simp add: codes_from_first_def init_state_def)

lemma codes_from_first_cong:
  "st_adresses st' = st_adresses st \<Longrightarrow> st_codeinsee st' = st_codeinsee st \<Longrightarrow>
   st_cpostal st' = st_cpostal st \<Longrightarrow> codes_from_first st' = codes_from_first st"
  by (simp add: codes_from_first_def split: list.splits)

lemma step_adresses_codes:
  assumes "codes_from_first st" "step_adresses e fn h b st = (l, Inr st1)"
  shows "codes_from_first st1"
  using step_adresses_cases [OF assms(2)] assms(1)
  by (auto simp: codes_from_first_def)

lemma page_step_codes:
  assumes "codes_from_first st" "page_step e fn fp h st b = (l, Inr st')"
  shows "codes_from_first st'"
proof -
  from page_step_cases [OF assms(2)] consider
    "st' = st" |
    st1 where "step_adresses e fn h b st = (l, Inr st1)"
      "st' = step_parcelles e fn b (step_notifies e b (step_arretes e fn fp b st1))"
    by auto
  then show ?thesis
  proof cases
    case 1
    with assms(1) show ?thesis by simp
  next
    case 2
    from step_adresses_codes [OF assms(1) 2(1)] have "codes_from_first st1" .
    moreover have "codes_from_first st' = codes_from_first st1"
      by (rule codes_from_first_cong) (simp_all add: 2(2))
    ultimately show ?thesis by simp
  qed
qed

lemma pages_loop_codes:
  "codes_from_first st \<Longrightarrow> pages_loop e fn fp h st bs = (l, Inr st') \<Longrightarrow>
   codes_from_first st'"
proof (induction bs arbitrary: st l)
  case Nil
  then show ?case by simp
next
  case (Cons b bs)
  from pages_loop_Cons_Inr [OF Cons.prems(2)] obtain l1 l2 st1 where
    s: "page_step e fn fp h st b = (l1, Inr st1)" and
    r: "pages_loop e fn fp h st1 bs = (l2, Inr st')" by blast
  from Cons.IH [OF page_step_codes [OF Cons.prems(1) s] r] show ?case .
qed

lemma doc_loop_codes:
  "doc_loop e fp ft = (l, Inr st) \<Longrightarrow> codes_from_first st"
  unfolding doc_loop_def by (rule pages_loop_codes [OF codes_from_first_init])

lemma detections_Nil [simp]: "detections e g [] = {}"
  by (simp add: detections_def map_filter_simps)

lemma detections_Cons:
  "detections e g (b # bs) =
     (if b = [] then {} else (case g b of None \<Rightarrow> {} | Some p \<Rightarrow> {normalize_string e p}))
       \<union> detections e g bs"
  by (simp add: detections_def map_filter_simps split: option.splits)

lemma step_notifies_sets:
  "st_proprios (step_notifies e b st) =
     (case get_proprio e b of None \<Rightarrow> {} | Some p \<Rightarrow> {normalize_string e p}) \<union> st_proprios st"
  "st_syndics (step_notifies e b st) =
     (case get_syndic e b of None \<Rightarrow> {} | Some p \<Rightarrow> {normalize_string e p}) \<union> st_syndics st"
  "st_gests (step_notifies e b st) =
     (case get_gest e b of None \<Rightarrow> {} | Some p \<Rightarrow> {normalize_string e p}) \<union> st_gests st"
  by (simp_all add: step_notifies_def Let_def split: option.split)

lemma page_step_sets:
  assumes "page_step e fn fp h st b = (l, Inr st')"
  shows "st_proprios st' = detections e (get_proprio e) [b] \<union> st_proprios st"
    and "st_syndics st' = detections e (get_syndic e) [b] \<union> st_syndics st"
    and "st_gests st' = detections e (get_gest e) [b] \<union> st_gests st"
proof -
  from page_step_cases [OF assms] consider
    "b = []" "st' = st" |
    st1 where "b \<noteq> []" "step_adresses e fn h b st = (l, Inr st1)"
      "st' = step_parcelles e fn b (step_notifies e b (step_arretes e fn fp b st1))"
    by auto
  then have "st_proprios st' = detections e (get_proprio e) [b] \<union> st_proprios st \<and>
             st_syndics st' = detections e (get_syndic e) [b] \<union> st_syndics st \<and>
             st_gests st' = detections e (get_gest e) [b] \<union> st_gests st"
  proof cases
    case 1
    then show ?thesis by (simp add: detections_Cons)
  next
    case 2
    from step_adresses_keeps(2,3,4) [OF 2(2)] show ?thesis
      by (simp add: 2(1,3) detections_Cons step_notifies_sets)
  qed
  then show "st_proprios st' = detections e (get_proprio e) [b] \<union> st_proprios st"
    and "st_syndics st' = detections e (get_syndic e) [b] \<union> st_syndics st"
    and "st_gests st' = detections e (get_gest e) [b] \<union> st_gests st"
    by simp_all
qed

lemma pages_loop_sets:
  "pages_loop e fn fp h st bs = (l, Inr st') \<Longrightarrow>
   st_proprios st' = st_proprios st \<union> detections e (get_proprio e) bs \<and>
   st_syndics st' = st_syndics st \<union> detections e (get_syndic e) bs \<and>
   st_gests st' = st_gests st \<union> detections e (get_gest e) bs"
proof (induction bs arbitrary: st l)
  case Nil
  then show ?case by simp
next
  case (Cons b bs)
  from pages_loop_Cons_Inr [OF Cons.prems] obtain l1 l2 st1 where
    s: "page_step e fn fp h st b = (l1, Inr st1)" and
    r: "pages_loop e fn fp h st1 bs = (l2, Inr st')" by blast
  have c: "\<And>g. detections e g (b # bs) = detections e g [b] \<union> detections e g bs"
    by (simp add: detections_Cons)
  from Cons.IH [OF r] page_step_sets [OF s] show ?case
    unfolding c by auto
qed

lemma detections_empty:
  "(\<forall>b \<in> set bs. b \<noteq> [] \<longrightarrow> g b = None) \<Longrightarrow> detections e g bs = {}"
  by (induction bs) (simp_all add: detections_Cons)

lemma doc_loop_sets:
  assumes "doc_loop e fp ft = (l, Inr st)"
  shows "st_proprios st = detections e (get_proprio e) (pages_body (doc_content e fp ft))"
    and "st_syndics st = detections e (get_syndic e) (pages_body (doc_content e fp ft))"
    and "st_gests st = detections e (get_gest e) (pages_body (doc_content e fp ft))"
  using pages_loop_sets [OF assms [unfolded doc_loop_def]]
  by (simp_all add: init_state_def)

lemma scalar_fields_aux:
  assumes "any_page e fp_txt_in"
      and "parse_arrete e fp_pdf_in fp_txt_in = (l, Inr r)"
  shows "\<exists>a. arretes r = [a] \<and>
           map_of a ''date'' =
             map_option (\<lambda>t. PyStr (normalize_string e (process_date_brute e t)))
               (first_occurrence (pages_cont (doc_content e fp_pdf_in fp_txt_in)) ''arr_date'') \<and>
           map_of a ''num_arr'' =
             map_option (\<lambda>t. PyStr (normalize_string e t))
               (first_occurrence (pages_cont (doc_content e fp_pdf_in fp_txt_in)) ''num_arr'') \<and>
           map_of a ''nom_arr'' =
             map_option (\<lambda>t. PyStr (normalize_string e t))
               (first_occurrence (pages_cont (doc_content e fp_pdf_in fp_txt_in)) ''nom_arr'')"
proof -
  from parse_arrete_Inr [OF assms] obtain l' st where
    lp: "doc_loop e fp_pdf_in fp_txt_in = (l', Inr st)" and
    r: "r = finalize e (path_name fp_pdf_in) fp_pdf_in st" by blast
  note lp' = lp [unfolded doc_loop_def]
  define a where
    "a = (if st_arretes st = [] then [(''pdf'', PyStr (path_name fp_pdf_in)), (''url'', PyPath fp_pdf_in)]
          else st_arretes st)"
  have k: "\<And>k. k \<in> {''date'', ''num_arr'', ''nom_arr''} \<Longrightarrow>
             map_of a k = map_of (arretes_init e (pages_cont (doc_content e fp_pdf_in fp_txt_in))) k"
  proof -
    fix k :: string
    assume kk: "k \<in> {''date'', ''num_arr'', ''nom_arr''}"
    then have "k \<notin> {''classe'', ''urgence'', ''demo'', ''int_hab'', ''equ_com'', ''pdf'', ''url'',
                      ''codeinsee''}" by auto
    from pages_loop_other_key [OF this lp']
    have e: "map_of (st_arretes st) k =
             map_of (arretes_init e (pages_cont (doc_content e fp_pdf_in fp_txt_in))) k"
      by (simp add: init_state_def)
    show "map_of a k = map_of (arretes_init e (pages_cont (doc_content e fp_pdf_in fp_txt_in))) k"
    proof (cases "st_arretes st = []")
      case True
      with e kk show ?thesis by (auto simp: a_def)
    next
      case False
      with e show ?thesis by (simp add: a_def)
    qed
  qed
  have "arretes r = [a]" by (simp add: r finalize_arretes a_def)
  moreover note k [of "''date''"] k [of "''num_arr''"] k [of "''nom_arr''"]
  ultimately show ?thesis by (simp add: arretes_init_keys)
qed

section \<open>Addresses through the page loop\<close>

lemma adresse_loop_body_Inr:
  assumes "adresse_loop_body e fn h zb x = (l, Inr a)"
  shows "ad_brute a = zb" "ville a = determine_commune e (adr_ville x) h"
    "get_codeinsee e (ville a) (adr_cpostal x) = Inr (codeinsee a)"
    "soft_miss_logged fn l a"
  using assms
  by (auto simp: adresse_loop_body_def soft_miss_logged_def Let_def split: sum.splits if_splits)

lemma soft_miss_logged_append:
  "soft_miss_logged fn l1 a \<or> soft_miss_logged fn l2 a \<Longrightarrow> soft_miss_logged fn (l1 @ l2) a"
  by (auto simp: soft_miss_logged_def)

lemma adresse_loop_Cons_Inr:
  assumes "adresse_loop e fn h zb (x # xs) = (l, Inr as)"
  shows "\<exists>l1 l2 a as'. adresse_loop_body e fn h zb x = (l1, Inr a) \<and>
           adresse_loop e fn h zb xs = (l2, Inr as') \<and> l = l1 @ l2 \<and> as = a # as'"
  using assms
  by (cases "adresse_loop_body e fn h zb x"; cases "adresse_loop e fn h zb xs")
     (auto split: sum.splits)

lemma adresse_loop_Inr:
  "adresse_loop e fn h zb xs = (l, Inr as) \<Longrightarrow>
   length as = length xs \<and> (\<forall>a \<in> set as. ad_brute a = zb \<and> soft_miss_logged fn l a)"
proof (induction xs arbitrary: l as)
  case Nil
  then show ?case by simp
next
  case (Cons x xs)
  from adresse_loop_Cons_Inr [OF Cons.prems] obtain l1 l2 a as' where
    b: "adresse_loop_body e fn h zb x = (l1, Inr a)" and
    r: "adresse_loop e fn h zb xs = (l2, Inr as')" and
    l: "l = l1 @ l2" and as: "as = a # as'" by blast
  from Cons.IH [OF r] adresse_loop_body_Inr(1,4) [OF b] show ?case
    by (auto simp: l as intro: soft_miss_logged_append)
qed

lemma extract_zone:
  assumes "get_adr_doc e b = z # zs"
  shows "snd (extract_adresses_commune e fn b h) =
         snd (adresse_loop e fn h (adresse_brute z) (zone_adresses z))"
    and "set (fst (adresse_loop e fn h (adresse_brute z) (zone_adresses z)))
           \<subseteq> set (fst (extract_adresses_commune e fn b h))"
  using assms
  by (auto simp: extract_adresses_commune_def Let_def split: prod.splits)

lemma extract_no_zone:
  "get_adr_doc e b = [] \<Longrightarrow> extract_adresses_commune e fn b h = ([], Inr [])"
  by (simp add: extract_adresses_commune_def)


lemma page_step_adresses_kept:
  assumes "st_adresses st \<noteq> []" "page_step e fn fp h st b = (l, Inr st')"
  shows "st_adresses st' = st_adresses st"
  using page_step_cases [OF assms(2)] assms(1)
  by (auto dest!: step_adresses_cases)

lemma page_step_adresses_found:
  assumes "st_adresses st = []" "page_step e fn fp h st b = (l, Inr st')"
  shows "(page_sans_adresse e fn h b \<and> st_adresses st' = []) \<or>
         (b \<noteq> [] \<and> st_adresses st' \<noteq> [] \<and>
          extract_adresses_commune e fn b h = (l, Inr (st_adresses st')))"
proof -
  from page_step_cases [OF assms(2)] consider
    "b = []" "st' = st" |
    st1 where "b \<noteq> []" "step_adresses e fn h b st = (l, Inr st1)"
      "st' = step_parcelles e fn b (step_notifies e b (step_arretes e fn fp b st1))"
    by auto
  then show ?thesis
  proof cases
    case 1
    with assms(1) show ?thesis by (simp add: page_sans_adresse_def)
  next
    case 2
    from step_adresses_cases [OF 2(2)] assms(1) 2(1,3) show ?thesis
      by (auto simp: page_sans_adresse_def)
  qed
qed

lemma pages_loop_adresses_kept:
  "st_adresses st \<noteq> [] \<Longrightarrow> pages_loop e fn fp h st bs = (l, Inr st') \<Longrightarrow>
   st_adresses st' = st_adresses st"
proof (induction bs arbitrary: st l)
  case Nil
  then show ?case by simp
next
  case (Cons b bs)
  from pages_loop_Cons_Inr [OF Cons.prems(2)] obtain l1 l2 st1 where
    s: "page_step e fn fp h st b = (l1, Inr st1)" and
    r: "pages_loop e fn fp h st1 bs = (l2, Inr st')" by blast
  from page_step_adresses_kept [OF Cons.prems(1) s] have k: "st_adresses st1 = st_adresses st" .
  with Cons.prems(1) Cons.IH [OF _ r] show ?case by simp
qed

lemma pages_loop_adresses_found:
  "st_adresses st = [] \<Longrightarrow> pages_loop e fn fp h st bs = (l, Inr st') \<Longrightarrow>
   (st_adresses st' = [] \<and> (\<forall>b \<in> set bs. page_sans_adresse e fn h b)) \<or>
   (\<exists>pre b post. bs = pre @ b # post \<and> (\<forall>b' \<in> set pre. page_sans_adresse e fn h b') \<and>
      b \<noteq> [] \<and> st_adresses st' \<noteq> [] \<and>
      snd (extract_adresses_commune e fn b h) = Inr (st_adresses st'))"
proof (induction bs arbitrary: st l)
  case Nil
  then show ?case by simp
next
  case (Cons c bs)
  from pages_loop_Cons_Inr [OF Cons.prems(2)] obtain l1 l2 st1 where
    s: "page_step e fn fp h st c = (l1, Inr st1)" and
    r: "pages_loop e fn fp h st1 bs = (l2, Inr st')" by blast
  from page_step_adresses_found [OF Cons.prems(1) s] consider
    "page_sans_adresse e fn h c" "st_adresses st1 = []" |
    "c \<noteq> []" "st_adresses st1 \<noteq> []"
      "extract_adresses_commune e fn c h = (l1, Inr (st_adresses st1))"
    by blast
  then show ?case
  proof cases
    case 1
    from Cons.IH [OF 1(2) r] show ?thesis
    proof
      assume "st_adresses st' = [] \<and> (\<forall>b \<in> set bs. page_sans_adresse e fn h b)"
      with 1(1) show ?thesis by simp
    next
      assume "\<exists>pre b post. bs = pre @ b # post \<and> (\<forall>b' \<in> set pre. page_sans_adresse e fn h b') \<and>
        b \<noteq> [] \<and> st_adresses st' \<noteq> [] \<and>
        snd (extract_adresses_commune e fn b h) = Inr (st_adresses st')"
      then obtain pre b post where
        p: "bs = pre @ b # post" "\<forall>b' \<in> set pre. page_sans_adresse e fn h b'" "b \<noteq> []"
           "st_adresses st' \<noteq> []" "snd (extract_adresses_commune e fn b h) = Inr (st_adresses st')"
        by blast
      from p(1) have "c # bs = (c # pre) @ b # post" by simp
      moreover from p(2) 1(1) have "\<forall>b' \<in> set (c # pre). page_sans_adresse e fn h b'" by simp
      ultimately show ?thesis using p(3,4,5) by blast
    qed
  next
    case 2
    from pages_loop_adresses_kept [OF 2(2) r] have k: "st_adresses st' = st_adresses st1" .
    have "c # bs = [] @ c # bs" by simp
    moreover have "\<forall>b' \<in> set []. page_sans_adresse e fn h b'" by simp
    moreover have "snd (extract_adresses_commune e fn c h) = Inr (st_adresses st')"
      by (simp add: 2(3) k)
    ultimately show ?thesis using 2(1,2) k by metis
  qed
qed

lemma adresse_loop_body_create_fails:
  assumes "get_codeinsee e (determine_commune e (adr_ville x) h) (adr_cpostal x) = Inr ci"
      and "create_adresse_normalisee e (adr_num x) (adr_ind x) (adr_voie x) (adr_compl x)
             (if falsy (adr_cpostal x)
              then get_codepostal e (determine_commune e (adr_ville x) h) ci
              else adr_cpostal x)
             (determine_commune e (adr_ville x) h) = Inl err"
  shows "snd (adresse_loop_body e fn h zb x) = Inl err"
  using assms by (simp add: adresse_loop_body_def Let_def)

lemma adresse_loop_Inl:
  "\<forall>x' \<in> set ok. \<exists>a. snd (adresse_loop_body e fn h zb x') = Inr a \<Longrightarrow>
   snd (adresse_loop_body e fn h zb x) = Inl err \<Longrightarrow>
   snd (adresse_loop e fn h zb (ok @ x # rest)) = Inl err"
proof (induction ok)
  case Nil
  then show ?case
    by (cases "adresse_loop_body e fn h zb x") (auto split: sum.splits prod.splits)
next
  case (Cons y ok)
  from Cons.prems(1) obtain a where "snd (adresse_loop_body e fn h zb y) = Inr a" by auto
  moreover from Cons have "snd (adresse_loop e fn h zb (ok @ x # rest)) = Inl err" by simp
  ultimately show ?case
    by (cases "adresse_loop_body e fn h zb y"; cases "adresse_loop e fn h zb (ok @ x # rest)")
       (auto split: sum.splits)
qed

lemma page_step_sans_adresse:
  assumes "st_adresses st = []" "page_sans_adresse e fn h b"
  shows "\<exists>l st1. page_step e fn fp h st b = (l, Inr st1) \<and> st_adresses st1 = []"
proof (cases "b = []")
  case True
  with assms(1) show ?thesis by (simp add: page_step_def)
next
  case False
  with assms(2) have "snd (extract_adresses_commune e fn b h) = Inr []"
    by (simp add: page_sans_adresse_def)
  then obtain l where "extract_adresses_commune e fn b h = (l, Inr [])"
    by (cases "extract_adresses_commune e fn b h") simp
  with assms(1) have "step_adresses e fn h b st = (l, Inr st)"
    by (simp add: step_adresses_def)
  with False assms(1) show ?thesis by (simp add: page_step_def)
qed

lemma page_step_Inl:
  assumes "st_adresses st = []" "b \<noteq> []" "snd (extract_adresses_commune e fn b h) = Inl err"
  shows "snd (page_step e fn fp h st b) = Inl err"
proof -
  from assms(3) obtain l where "extract_adresses_commune e fn b h = (l, Inl err)"
    by (cases "extract_adresses_commune e fn b h") simp
  with assms(1) have "step_adresses e fn h b st = (l, Inl err)"
    by (simp add: step_adresses_def)
  with assms(2) show ?thesis by (simp add: page_step_def)
qed

lemma pages_loop_Inl:
  "st_adresses st = [] \<Longrightarrow> \<forall>b' \<in> set pre. page_sans_adresse e fn h b' \<Longrightarrow> b \<noteq> [] \<Longrightarrow>
   snd (extract_adresses_commune e fn b h) = Inl err \<Longrightarrow>
   snd (pages_loop e fn fp h st (pre @ b # post)) = Inl err"
proof (induction pre arbitrary: st)
  case Nil
  from page_step_Inl [OF Nil(1,3,4), of fp] show ?case
    by (cases "page_step e fn fp h st b") (auto split: sum.splits)
next
  case (Cons c pre)
  from Cons.prems(2) have "page_sans_adresse e fn h c" by simp
  from page_step_sans_adresse [OF Cons.prems(1) this] obtain l st1 where
    s: "page_step e fn fp h st c = (l, Inr st1)" and e: "st_adresses st1 = []" by blast
  from Cons.prems(2) have "\<forall>b' \<in> set pre. page_sans_adresse e fn h b'" by simp
  from Cons.IH [OF e this Cons.prems(3,4)]
  show ?case using s
    by (cases "pages_loop e fn fp h st1 (pre @ b # post)") simp
qed

lemma extract_Inr_zone:
  assumes "extract_adresses_commune e fn b h = (l, Inr as)" "as \<noteq> []"
  shows "\<exists>z zs. get_adr_doc e b = z # zs \<and>
           snd (adresse_loop e fn h (adresse_brute z) (zone_adresses z)) = Inr as \<and>
           length as = length (zone_adresses z) \<and>
           (\<forall>a \<in> set as. ad_brute a = adresse_brute z)"
proof (cases "get_adr_doc e b")
  case Nil
  with assms show ?thesis by (simp add: extract_no_zone)
next
  case (Cons z zs)
  obtain l' r' where lr: "adresse_loop e fn h (adresse_brute z) (zone_adresses z) = (l', r')"
    by (cases "adresse_loop e fn h (adresse_brute z) (zone_adresses z)")
  from extract_zone(1) [OF Cons, of fn h] assms(1) lr have "r' = Inr as" by simp
  with adresse_loop_Inr [of e fn h "adresse_brute z" "zone_adresses z" l' as] lr Cons
  show ?thesis by simp
qed












lemma map_of_all_None:
  assumes "\<And>k. map_of d k = None"
  shows "d = []"
proof (cases d)
  case Nil
  then show ?thesis .
next
  case (Cons p ps)
  with assms [of "fst p"] show ?thesis by simp
qed

section \<open>The example documents, evaluated\<close>

lemma ex_doc_loop_sets:
  "\<not> isl (snd (doc_loop ex_env [''d'', ''doc.pdf''] [''doc.txt'']))"
  "st_proprios (projr (snd (doc_loop ex_env [''d'', ''doc.pdf''] [''doc.txt'']))) = {''Dupont''}"
  by code_simp+

lemma ex_any_page:
  "any_page ex_env [''doc.txt'']" "any_page ex_env [''simple.txt'']"
  "any_page ex_env [''ar.txt'']" "any_page ex_env [''incoherent.txt'']"
  by (simp_all add: any_page_def ex_env_def)

lemma ex_doc_result:
  "parse_arrete ex_env [''d'', ''doc.pdf''] [''doc.txt''] =
     ([Error_aucune_adresse ''doc.pdf'' ''zone A''],
      Inr \<lparr>adresses =
             [\<lparr>ad_brute = ''zone B'', num = Some ''12'', ind = None, voie = Some ''rue X'',
               compl = None, cpostal = Some ''13001'', ville = Some ''Marseille'',
               adresse = ''rue X, Marseille'', codeinsee = Some ''13201''\<rparr>],
           arretes =
             [[(''date'', PyStr ''01/03/2020''), (''num_arr'', PyStr ''2020_01''),
               (''classe'', PyNone), (''urgence'', PyNone), (''demo'', PyNone),
               (''int_hab'', PyNone), (''equ_com'', PyNone), (''pdf'', PyStr ''doc.pdf''),
               (''url'', PyPath [''d'', ''doc.pdf'']), (''codeinsee'', PyNone)]],
           notifies =
             [\<lparr>id_proprio = Some ''Dupont'', proprio = ''TODO_proprio'', id_syndic = None,
               syndic = ''TODO_syndic'', id_gest = None, gest = ''TODO_gest'',
               notifie_codeinsee = Some ''13201''\<rparr>],
           parcelles = {\<lparr>ref_cad = ''?AB 12'', parcelle_codeinsee = Some ''13201''\<rparr>}\<rparr>)"
  by code_simp

lemma ex_simple_result:
  "parse_arrete ex_env [''d'', ''doc.pdf''] [''simple.txt''] =
     ([],
      Inr \<lparr>adresses = [],
           arretes =
             [[(''classe'', PyNone), (''urgence'', PyNone), (''demo'', PyNone),
               (''int_hab'', PyNone), (''equ_com'', PyNone), (''pdf'', PyStr ''doc.pdf''),
               (''url'', PyPath [''d'', ''doc.pdf'']), (''codeinsee'', PyNone)]],
           notifies =
             [\<lparr>id_proprio = None, proprio = ''TODO_proprio'', id_syndic = None,
               syndic = ''TODO_syndic'', id_gest = None, gest = ''TODO_gest'',
               notifie_codeinsee = None\<rparr>],
           parcelles = {}\<rparr>)"
  by code_simp

lemma ex_doc_bodies:
  "pages_body (doc_content ex_env [''d'', ''doc.pdf''] [''doc.txt'']) = [''p1'', ''p2'', ''p3'']"
  by code_simp

lemma ex_doc_spans:
  "pages_cont (doc_content ex_env [''d'', ''doc.pdf''] [''doc.txt'']) =
     [\<lparr>span_typ = ''arr_date'', span_txt = ''1er mars 2020'', page_num = 1\<rparr>,
      \<lparr>span_typ = ''num_arr'', span_txt = ''2020_01'', page_num = 1\<rparr>,
      \<lparr>span_typ = ''adr_ville'', span_txt = ''Marseille'', page_num = 1\<rparr>]"
  by code_simp

lemma ex_simple_content:
  "doc_content ex_env [''d'', ''doc.pdf''] [''simple.txt''] = [\<lparr>body = ''q1'', content = []\<rparr>]"
  by code_simp

lemma ex_ar_content:
  "doc_content ex_env [''d'', ''doc.pdf''] [''ar.txt''] = [\<lparr>body = [], content = []\<rparr>]"
  by code_simp

lemma ex_incoherent_content:
  "doc_content ex_env [''d'', ''doc.pdf''] [''incoherent.txt''] = [\<lparr>body = ''r1'', content = []\<rparr>]"
  by code_simp

lemma ex_doc_loop_codes:
  "st_cpostal (projr (snd (doc_loop ex_env [''d'', ''doc.pdf''] [''doc.txt'']))) = Some ''13001''"
  by code_simp



lemma ex_autre_spans:
  "pages_cont (doc_content ex_env [''d'', ''doc.pdf''] [''autre.txt'']) =
     [\<lparr>span_typ = ''arr_date'', span_txt = ''1er mars 2020'', page_num = 1\<rparr>,
      \<lparr>span_typ = ''num_arr'', span_txt = ''2020_01'', page_num = 1\<rparr>,
      \<lparr>span_typ = ''adr_ville'', span_txt = ''Marseille'', page_num = 1\<rparr>]"
  "pages_body (doc_content ex_env [''d'', ''doc.pdf''] [''autre.txt'']) = [''p1'', ''q1'']"
  "any_page ex_env [''autre.txt'']"
  "\<not> isl (snd (parse_arrete ex_env [''d'', ''doc.pdf''] [''autre.txt'']))"
  by code_simp+



lemma ex_doc_loop_state:
  "st_codeinsee (projr (snd (doc_loop ex_env [''d'', ''doc.pdf''] [''doc.txt'']))) = Some ''13201''"
  "detections ex_env (get_proprio ex_env) [''p1'', ''p2'', ''p3''] = {''Dupont''}"
  "snd (extract_adresses_commune ex_env ''doc.pdf'' ''p3''
          (doc_hint ex_env [''d'', ''doc.pdf''] [''doc.txt''])) =
     Inr [\<lparr>ad_brute = ''zone B'', num = Some ''12'', ind = None, voie = Some ''rue X'',
            compl = None, cpostal = Some ''13001'', ville = Some ''Marseille'',
            adresse = ''rue X, Marseille'', codeinsee = Some ''13201''\<rparr>]"
  by code_simp+

section \<open>Classification fields\<close>

text \<open>
  Claim C1, as amended. For each field of the classification family (\<open>classe\<close>,
  \<open>urgence\<close>, \<open>demo\<close>, \<open>int_hab\<close>, \<open>equ_com\<close>), the value in the order record of
  a document that is analysed to the end is the result of the field's detector on the
  first page whose body is not empty, whatever that result is: the key is created on
  that page, and \<open>if key not in arretes\<close> keeps every later page from changing it.
\<close>

theorem classification_from_first_page:
  assumes "any_page e fp_txt_in"
      and "parse_arrete e fp_pdf_in fp_txt_in = (l, Inr r)"
      and "first_body (pages_body (doc_content e fp_pdf_in fp_txt_in)) = Some b"
  shows "\<exists>a. arretes r = [a] \<and>
           map_of a ''classe'' = Some (get_classe e b) \<and>
           map_of a ''urgence'' = Some (get_urgence e b) \<and>
           map_of a ''demo'' = Some (get_demo e b) \<and>
           map_of a ''int_hab'' = Some (get_int_hab e b) \<and>
           map_of a ''equ_com'' = Some (get_equ_com e b)"
proof -
  from parse_arrete_Inr [OF assms(1,2)] obtain l' st where
    lp: "doc_loop e fp_pdf_in fp_txt_in = (l', Inr st)" and
    r: "r = finalize e (path_name fp_pdf_in) fp_pdf_in st" by blast
  note lp' = lp [unfolded doc_loop_def]
  have ne: "st_arretes st \<noteq> []"
    using pages_loop_arretes_nonempty [OF assms(3) lp'] .
  have init: "\<And>k. k \<in> {''classe'', ''urgence'', ''demo'', ''int_hab'', ''equ_com''} \<Longrightarrow>
     map_of (st_arretes (init_state (arretes_init e
        (pages_cont (doc_content e fp_pdf_in fp_txt_in))))) k = None"
    by (auto simp: init_state_def arretes_init_keys)
  have "arretes r = [st_arretes st]"
    using ne by (simp add: r finalize_arretes)
  moreover have "map_of (st_arretes st) ''classe'' = Some (get_classe e b)"
    using pages_loop_classif(1) [OF assms(3) lp' init] by simp
  moreover have "map_of (st_arretes st) ''urgence'' = Some (get_urgence e b)"
    using pages_loop_classif(2) [OF assms(3) lp' init] by simp
  moreover have "map_of (st_arretes st) ''demo'' = Some (get_demo e b)"
    using pages_loop_classif(3) [OF assms(3) lp' init] by simp
  moreover have "map_of (st_arretes st) ''int_hab'' = Some (get_int_hab e b)"
    using pages_loop_classif(4) [OF assms(3) lp' init] by simp
  moreover have "map_of (st_arretes st) ''equ_com'' = Some (get_equ_com e b)"
    using pages_loop_classif(5) [OF assms(3) lp' init] by simp
  ultimately show ?thesis by simp
qed

theorem classification_from_first_page_witness:
  "any_page ex_env [''doc.txt''] \<and>
   first_body (pages_body (doc_content ex_env [''d'', ''doc.pdf''] [''doc.txt''])) = Some ''p1'' \<and>
   map_of (hd (arretes (projr (snd (parse_arrete ex_env [''d'', ''doc.pdf''] [''doc.txt'']))))) ''classe''
     = Some (get_classe ex_env ''p1'')"
proof -
  have b: "first_body (pages_body (doc_content ex_env [''d'', ''doc.pdf''] [''doc.txt''])) = Some ''p1''"
    by (simp add: ex_doc_bodies first_body_def)
  from classification_from_first_page [OF ex_any_page(1) ex_doc_result b]
  show ?thesis using b ex_any_page(1) by (auto simp: ex_doc_result)
qed

text \<open>
  With ``the first non-empty detection'' in place of ``the detection on the first page
  with a non-empty body'' the statement fails. The three page bodies of \<open>doc.txt\<close>
  are non-empty; the classification detector returns \<open>None\<close> on pages 1 and 2 and a
  classification on page 3; the order record holds \<open>None\<close>.
\<close>

theorem classification_first_detection_counterexample:
  "pages_body (doc_content ex_env [''d'', ''doc.pdf''] [''doc.txt'']) = [''p1'', ''p2'', ''p3''] \<and>
   get_classe ex_env ''p1'' = PyNone \<and>
   get_classe ex_env ''p2'' = PyNone \<and>
   get_classe ex_env ''p3'' = PyStr ''Arrete de peril'' \<and>
   \<not> isl (snd (parse_arrete ex_env [''d'', ''doc.pdf''] [''doc.txt''])) \<and>
   map_of (hd (arretes (projr (snd (parse_arrete ex_env [''d'', ''doc.pdf''] [''doc.txt'']))))) ''classe''
     \<noteq> Some (get_classe ex_env ''p3'')"
  by (simp add: ex_doc_bodies ex_doc_result) (simp add: ex_env_def)

section \<open>Failures of address resolution\<close>




section \<open>The minimal order record\<close>

text \<open>
  Claim C3, as amended. When no date, order number or title span occurs in the
  classified span sequence and, moreover, no page body is non-empty, \<open>parse_arrete\<close>
  returns, and the order record it returns holds the file name (\<open>pdf\<close>) and the
  source reference (\<open>url\<close>) and nothing else.
\<close>

theorem minimal_order_record:
  assumes "first_occurrence (pages_cont (doc_content e fp_pdf_in fp_txt_in)) ''arr_date'' = None"
      and "first_occurrence (pages_cont (doc_content e fp_pdf_in fp_txt_in)) ''num_arr'' = None"
      and "first_occurrence (pages_cont (doc_content e fp_pdf_in fp_txt_in)) ''nom_arr'' = None"
      and "\<forall>b \<in> set (pages_body (doc_content e fp_pdf_in fp_txt_in)). b = []"
  shows "\<exists>l r. parse_arrete e fp_pdf_in fp_txt_in = (l, Inr r) \<and>
           arretes r = [[(''pdf'', PyStr (path_name fp_pdf_in)), (''url'', PyPath fp_pdf_in)]]"
proof (cases "any_page e fp_txt_in")
  case False
  then show ?thesis by (simp add: parse_arrete_no_page)
next
  case True
  have "arretes_init e (pages_cont (doc_content e fp_pdf_in fp_txt_in)) = []"
    by (rule map_of_all_None) (simp add: arretes_init_keys assms(1-3))
  then have "doc_loop e fp_pdf_in fp_txt_in = ([], Inr (init_state []))"
    by (simp add: doc_loop_def pages_loop_all_empty [OF assms(4)])
  then show ?thesis
    by (simp add: parse_arrete_any_page [OF True] finalize_arretes init_state_def)
qed

theorem minimal_order_record_witness:
  "any_page ex_env [''ar.txt''] \<and>
   pages_cont (doc_content ex_env [''d'', ''doc.pdf''] [''ar.txt'']) = [] \<and>
   pages_body (doc_content ex_env [''d'', ''doc.pdf''] [''ar.txt'']) = [[]] \<and>
   (\<exists>l r. parse_arrete ex_env [''d'', ''doc.pdf''] [''ar.txt''] = (l, Inr r) \<and>
      arretes r = [[(''pdf'', PyStr ''doc.pdf''), (''url'', PyPath [''d'', ''doc.pdf''])]])"
proof -
  have c: "pages_cont (doc_content ex_env [''d'', ''doc.pdf''] [''ar.txt'']) = []"
    by (simp add: ex_ar_content pages_cont_def)
  have h: "\<And>t. first_occurrence (pages_cont (doc_content ex_env [''d'', ''doc.pdf''] [''ar.txt''])) t = None"
    by (simp add: c first_occurrence_def)
  have b: "pages_body (doc_content ex_env [''d'', ''doc.pdf''] [''ar.txt'']) = [[]]"
    by (simp add: ex_ar_content pages_body_def)
  have b': "\<forall>b \<in> set (pages_body (doc_content ex_env [''d'', ''doc.pdf''] [''ar.txt''])). b = []"
    by (simp add: b)
  from minimal_order_record [OF h h h b']
  show ?thesis using c b ex_any_page(3) by (simp add: path_name_def)
qed

text \<open>
  Without the condition on the page bodies the statement fails: \<open>simple.txt\<close> has no
  date, number or title span, but its page has a body, and the order record has the
  eight keys that the page loop sets.
\<close>

theorem minimal_order_record_counterexample:
  "first_occurrence (pages_cont (doc_content ex_env [''d'', ''doc.pdf''] [''simple.txt''])) ''arr_date'' = None \<and>
   first_occurrence (pages_cont (doc_content ex_env [''d'', ''doc.pdf''] [''simple.txt''])) ''num_arr'' = None \<and>
   first_occurrence (pages_cont (doc_content ex_env [''d'', ''doc.pdf''] [''simple.txt''])) ''nom_arr'' = None \<and>
   \<not> isl (snd (parse_arrete ex_env [''d'', ''doc.pdf''] [''simple.txt''])) \<and>
   arretes (projr (snd (parse_arrete ex_env [''d'', ''doc.pdf''] [''simple.txt'']))) \<noteq>
     [[(''pdf'', PyStr ''doc.pdf''), (''url'', PyPath [''d'', ''doc.pdf''])]] \<and>
   map_of (hd (arretes (projr (snd (parse_arrete ex_env [''d'', ''doc.pdf''] [''simple.txt'']))))) ''classe''
     = Some PyNone"
  by (simp add: ex_simple_content ex_simple_result pages_cont_def first_occurrence_def)

section \<open>Documents without text\<close>

text \<open>
  Claim C4. When every page of the document has empty text, \<open>parse_arrete\<close> returns
  without raising: the result is exactly one order record holding only the file name
  (\<open>pdf\<close>) and the source reference (\<open>url\<close>), with empty collections of addresses,
  notified parties and parcels. Only the warning ``no page of text'' is logged.
\<close>

theorem parse_arrete_no_text:
  assumes "\<forall>x \<in> set (load_pages_text e fp_txt_in). x = []"
  shows "parse_arrete e fp_pdf_in fp_txt_in =
           ([Warning_aucune_page fp_txt_in],
            Inr \<lparr>adresses = [],
                 arretes = [[(''pdf'', PyStr (path_name fp_pdf_in)), (''url'', PyPath fp_pdf_in)]],
                 notifies = [], parcelles = {}\<rparr>)"
  using assms by (simp add: parse_arrete_def Let_def)

theorem parse_arrete_no_text_witness:
  "load_pages_text ex_env [''vide.txt''] = [[], []] \<and>
   parse_arrete ex_env [''d'', ''doc.pdf''] [''vide.txt''] =
     ([Warning_aucune_page [''vide.txt'']],
      Inr \<lparr>adresses = [],
           arretes = [[(''pdf'', PyStr ''doc.pdf''), (''url'', PyPath [''d'', ''doc.pdf''])]],
           notifies = [], parcelles = {}\<rparr>)"
proof -
  have p: "load_pages_text ex_env [''vide.txt''] = [[], []]"
    by (simp add: ex_env_def)
  have h: "\<forall>x \<in> set (load_pages_text ex_env [''vide.txt'']). x = []"
    by (simp add: p)
  show ?thesis
    using p parse_arrete_no_text [OF h, of "[''d'', ''doc.pdf'']"]
    by (simp add: path_name_def)
qed

section \<open>Addresses\<close>

text \<open>
  Claim C5, as amended. In the result of a document that has some text and is analysed
  to the end, all addresses come from one address zone. Address extraction runs only
  while the address list is empty, and on a page it expands only the first zone found.
  Either no page yields an address and the list is empty, or the addresses are exactly
  those resolved from the first zone of the first page, in page order, whose body is
  not empty and whose first zone expands to at least one address; every page before it
  has an empty body, no zone, or a first zone without address. From then on the
  document's INSEE and postal codes are those of the first address of the list.
\<close>

theorem addresses_from_one_zone:
  assumes "any_page e fp_txt_in"
      and "parse_arrete e fp_pdf_in fp_txt_in = (l, Inr r)"
  shows "(adresses r = [] \<and>
          (\<forall>b \<in> set (pages_body (doc_content e fp_pdf_in fp_txt_in)).
             page_sans_adresse e (path_name fp_pdf_in) (doc_hint e fp_pdf_in fp_txt_in) b)) \<or>
         (\<exists>pre b post z zs l' st.
            pages_body (doc_content e fp_pdf_in fp_txt_in) = pre @ b # post \<and>
            (\<forall>b' \<in> set pre.
               page_sans_adresse e (path_name fp_pdf_in) (doc_hint e fp_pdf_in fp_txt_in) b') \<and>
            b \<noteq> [] \<and> get_adr_doc e b = z # zs \<and> adresses r \<noteq> [] \<and>
            snd (adresse_loop e (path_name fp_pdf_in) (doc_hint e fp_pdf_in fp_txt_in)
                   (adresse_brute z) (zone_adresses z)) = Inr (adresses r) \<and>
            length (adresses r) = length (zone_adresses z) \<and>
            (\<forall>a \<in> set (adresses r). ad_brute a = adresse_brute z) \<and>
            doc_loop e fp_pdf_in fp_txt_in = (l', Inr st) \<and>
            st_codeinsee st = codeinsee (hd (adresses r)) \<and>
            st_cpostal st = cpostal (hd (adresses r)))"
proof -
  let ?fn = "path_name fp_pdf_in" and ?h = "doc_hint e fp_pdf_in fp_txt_in"
  from parse_arrete_Inr [OF assms] obtain l' st where
    lp: "doc_loop e fp_pdf_in fp_txt_in = (l', Inr st)" and
    r: "r = finalize e (path_name fp_pdf_in) fp_pdf_in st" by blast
  have a: "adresses r = st_adresses st" by (simp add: r finalize_fields)
  have i: "st_adresses (init_state (arretes_init e (pages_cont (doc_content e fp_pdf_in fp_txt_in)))) = []"
    by (simp add: init_state_def)
  from pages_loop_adresses_found [OF i lp [unfolded doc_loop_def]] consider
    "st_adresses st = []"
      "\<forall>b \<in> set (pages_body (doc_content e fp_pdf_in fp_txt_in)). page_sans_adresse e ?fn ?h b" |
    pre b post where "pages_body (doc_content e fp_pdf_in fp_txt_in) = pre @ b # post"
      "\<forall>b' \<in> set pre. page_sans_adresse e ?fn ?h b'" "b \<noteq> []" "st_adresses st \<noteq> []"
      "snd (extract_adresses_commune e ?fn b ?h) = Inr (st_adresses st)"
    by blast
  then show ?thesis
  proof cases
    case 1
    then show ?thesis by (simp add: a)
  next
    case 2
    from 2(5) obtain lx where "extract_adresses_commune e ?fn b ?h = (lx, Inr (st_adresses st))"
      by (cases "extract_adresses_commune e ?fn b ?h") simp
    from extract_Inr_zone [OF this 2(4)] obtain z zs where
      z: "get_adr_doc e b = z # zs"
         "snd (adresse_loop e ?fn ?h (adresse_brute z) (zone_adresses z)) = Inr (st_adresses st)"
         "length (st_adresses st) = length (zone_adresses z)"
         "\<forall>a \<in> set (st_adresses st). ad_brute a = adresse_brute z" by blast
    from doc_loop_codes [OF lp] 2(4)
    have c: "st_codeinsee st = codeinsee (hd (st_adresses st))"
            "st_cpostal st = cpostal (hd (st_adresses st))"
      by (auto simp: codes_from_first_def split: list.splits)
    show ?thesis
      apply (rule disjI2)
      apply (rule exI [of _ pre], rule exI [of _ b], rule exI [of _ post],
             rule exI [of _ z], rule exI [of _ zs], rule exI [of _ l'], rule exI [of _ st])
      using 2(1,2,3,4) z c lp by (simp add: a)
  qed
qed

theorem addresses_from_one_zone_witness:
  "any_page ex_env [''doc.txt''] \<and>
   pages_body (doc_content ex_env [''d'', ''doc.pdf''] [''doc.txt'']) = [''p1'', ''p2'', ''p3''] \<and>
   map adresse_brute (get_adr_doc ex_env ''p3'') = [''zone B'', ''zone C''] \<and>
   map ad_brute (adresses (projr (snd (parse_arrete ex_env [''d'', ''doc.pdf''] [''doc.txt''])))) = [''zone B''] \<and>
   map cpostal (adresses (projr (snd (parse_arrete ex_env [''d'', ''doc.pdf''] [''doc.txt''])))) = [Some ''13001''] \<and>
   st_cpostal (projr (snd (doc_loop ex_env [''d'', ''doc.pdf''] [''doc.txt'']))) = Some ''13001''"
proof -
  have g: "map adresse_brute (get_adr_doc ex_env ''p3'') = [''zone B'', ''zone C'']"
    by (simp add: ex_env_def)
  from addresses_from_one_zone [OF ex_any_page(1) ex_doc_result]
  show ?thesis using g ex_any_page(1) ex_doc_bodies ex_doc_loop_codes
    by (simp add: ex_doc_result)
qed

text \<open>
  The first page that has an address zone need not be the page the addresses come
  from: in \<open>doc.txt\<close> the zone of page 2 expands to no address (an error is logged,
  the list stays empty), and the addresses are those of the first zone of page 3.
\<close>

theorem addresses_first_zone_page_counterexample:
  "pages_body (doc_content ex_env [''d'', ''doc.pdf''] [''doc.txt'']) = [''p1'', ''p2'', ''p3''] \<and>
   get_adr_doc ex_env ''p1'' = [] \<and>
   get_adr_doc ex_env ''p2'' = [\<lparr>adresse_brute = ''zone A'', zone_adresses = []\<rparr>] \<and>
   map adresse_brute (get_adr_doc ex_env ''p3'') = [''zone B'', ''zone C''] \<and>
   \<not> isl (snd (parse_arrete ex_env [''d'', ''doc.pdf''] [''doc.txt''])) \<and>
   map ad_brute (adresses (projr (snd (parse_arrete ex_env [''d'', ''doc.pdf''] [''doc.txt''])))) = [''zone B''] \<and>
   Error_aucune_adresse ''doc.pdf'' ''zone A''
     \<in> set (fst (parse_arrete ex_env [''d'', ''doc.pdf''] [''doc.txt'']))"
  by (simp add: ex_doc_bodies ex_doc_result) (simp add: ex_env_def)

section \<open>Date, number and title of the order\<close>

text \<open>
  Claim C6. In the result of a document that has some text and is analysed to the end,
  each of the three scalar fields of the order record is the normalised text of the
  first span of its type in the flat span sequence (\<open>arr_date\<close> for \<open>date\<close>, read as
  a date and then normalised; \<open>num_arr\<close>; \<open>nom_arr\<close>), and is absent when there is
  no such span. Consequently any other such document whose span sequence is the same
  has the same three fields, whatever else its pages contain.
\<close>

theorem scalar_fields_first_occurrence:
  assumes "any_page e fp_txt_in"
      and "parse_arrete e fp_pdf_in fp_txt_in = (l, Inr r)"
  shows "\<exists>a. arretes r = [a] \<and>
           map_of a ''date'' =
             map_option (\<lambda>t. PyStr (normalize_string e (process_date_brute e t)))
               (first_occurrence (pages_cont (doc_content e fp_pdf_in fp_txt_in)) ''arr_date'') \<and>
           map_of a ''num_arr'' =
             map_option (\<lambda>t. PyStr (normalize_string e t))
               (first_occurrence (pages_cont (doc_content e fp_pdf_in fp_txt_in)) ''num_arr'') \<and>
           map_of a ''nom_arr'' =
             map_option (\<lambda>t. PyStr (normalize_string e t))
               (first_occurrence (pages_cont (doc_content e fp_pdf_in fp_txt_in)) ''nom_arr'') \<and>
           (\<forall>fp' ft' l' r'.
              any_page e ft' \<and> parse_arrete e fp' ft' = (l', Inr r') \<and>
              pages_cont (doc_content e fp' ft') = pages_cont (doc_content e fp_pdf_in fp_txt_in)
              \<longrightarrow> (\<exists>a'. arretes r' = [a'] \<and> map_of a' ''date'' = map_of a ''date'' \<and>
                         map_of a' ''num_arr'' = map_of a ''num_arr'' \<and>
                         map_of a' ''nom_arr'' = map_of a ''nom_arr''))"
proof -
  from scalar_fields_aux [OF assms] obtain a where
    a: "arretes r = [a]"
       "map_of a ''date'' =
          map_option (\<lambda>t. PyStr (normalize_string e (process_date_brute e t)))
            (first_occurrence (pages_cont (doc_content e fp_pdf_in fp_txt_in)) ''arr_date'')"
       "map_of a ''num_arr'' =
          map_option (\<lambda>t. PyStr (normalize_string e t))
            (first_occurrence (pages_cont (doc_content e fp_pdf_in fp_txt_in)) ''num_arr'')"
       "map_of a ''nom_arr'' =
          map_option (\<lambda>t. PyStr (normalize_string e t))
            (first_occurrence (pages_cont (doc_content e fp_pdf_in fp_txt_in)) ''nom_arr'')"
    by blast
  have "\<exists>a'. arretes r' = [a'] \<and> map_of a' ''date'' = map_of a ''date'' \<and>
          map_of a' ''num_arr'' = map_of a ''num_arr'' \<and> map_of a' ''nom_arr'' = map_of a ''nom_arr''"
    if "any_page e ft'" "parse_arrete e fp' ft' = (l', Inr r')"
       "pages_cont (doc_content e fp' ft') = pages_cont (doc_content e fp_pdf_in fp_txt_in)"
    for fp' ft' l' r'
    using scalar_fields_aux [OF that(1,2)] a(2,3,4) unfolding that(3) by auto
  with a show ?thesis by blast
qed

theorem scalar_fields_first_occurrence_witness:
  "any_page ex_env [''doc.txt''] \<and> any_page ex_env [''autre.txt''] \<and>
   pages_cont (doc_content ex_env [''d'', ''doc.pdf''] [''autre.txt''])
     = pages_cont (doc_content ex_env [''d'', ''doc.pdf''] [''doc.txt'']) \<and>
   pages_body (doc_content ex_env [''d'', ''doc.pdf''] [''autre.txt''])
     \<noteq> pages_body (doc_content ex_env [''d'', ''doc.pdf''] [''doc.txt'']) \<and>
   first_occurrence (pages_cont (doc_content ex_env [''d'', ''doc.pdf''] [''doc.txt''])) ''arr_date''
     = Some ''1er mars 2020'' \<and>
   map_of (hd (arretes (projr (snd (parse_arrete ex_env [''d'', ''doc.pdf''] [''doc.txt'']))))) ''date''
     = Some (PyStr (normalize_string ex_env (process_date_brute ex_env ''1er mars 2020''))) \<and>
   map_of (hd (arretes (projr (snd (parse_arrete ex_env [''d'', ''doc.pdf''] [''doc.txt'']))))) ''nom_arr''
     = None \<and>
   map_of (hd (arretes (projr (snd (parse_arrete ex_env [''d'', ''doc.pdf''] [''autre.txt'']))))) ''date''
     = map_of (hd (arretes (projr (snd (parse_arrete ex_env [''d'', ''doc.pdf''] [''doc.txt'']))))) ''date''"
proof -
  let ?fp = "[''d'', ''doc.pdf'']"
  have f: "first_occurrence (pages_cont (doc_content ex_env ?fp [''doc.txt''])) ''arr_date''
            = Some ''1er mars 2020''"
          "first_occurrence (pages_cont (doc_content ex_env ?fp [''doc.txt''])) ''nom_arr'' = None"
    by (simp_all add: ex_doc_spans first_occurrence_def)
  have c: "pages_cont (doc_content ex_env ?fp [''autre.txt''])
             = pages_cont (doc_content ex_env ?fp [''doc.txt''])"
    by (simp add: ex_doc_spans ex_autre_spans(1))
  have b: "pages_body (doc_content ex_env ?fp [''autre.txt''])
             \<noteq> pages_body (doc_content ex_env ?fp [''doc.txt''])"
    by (simp add: ex_doc_bodies ex_autre_spans(2))
  obtain l' x' where lx: "parse_arrete ex_env ?fp [''autre.txt''] = (l', x')"
    by (cases "parse_arrete ex_env ?fp [''autre.txt'']")
  with ex_autre_spans(4) have "\<not> isl x'" by simp
  then obtain r' where "x' = Inr r'" by (cases x') auto
  with lx have p: "parse_arrete ex_env ?fp [''autre.txt''] = (l', Inr r')" by simp
  from scalar_fields_first_occurrence [OF ex_any_page(1) ex_doc_result] obtain a where
    a: "arretes (projr (snd (parse_arrete ex_env ?fp [''doc.txt'']))) = [a]"
       "map_of a ''date'' =
          map_option (\<lambda>t. PyStr (normalize_string ex_env (process_date_brute ex_env t)))
            (first_occurrence (pages_cont (doc_content ex_env ?fp [''doc.txt''])) ''arr_date'')"
       "map_of a ''nom_arr'' =
          map_option (\<lambda>t. PyStr (normalize_string ex_env t))
            (first_occurrence (pages_cont (doc_content ex_env ?fp [''doc.txt''])) ''nom_arr'')" and
    o: "\<forall>fp' ft' l' r'.
          any_page ex_env ft' \<and> parse_arrete ex_env fp' ft' = (l', Inr r') \<and>
          pages_cont (doc_content ex_env fp' ft') = pages_cont (doc_content ex_env ?fp [''doc.txt''])
          \<longrightarrow> (\<exists>a'. arretes r' = [a'] \<and> map_of a' ''date'' = map_of a ''date'' \<and>
                     map_of a' ''num_arr'' = map_of a ''num_arr'' \<and>
                     map_of a' ''nom_arr'' = map_of a ''nom_arr'')"
    unfolding ex_doc_result snd_conv sum.sel by blast
  from o ex_autre_spans(3) p c obtain a' where
    a': "arretes r' = [a']" "map_of a' ''date'' = map_of a ''date''" by blast
  show ?thesis
    using f c b ex_any_page(1) ex_autre_spans(3) a a'
    by (simp add: p)
qed

section \<open>Incoherent addresses\<close>

text \<open>
  Claim C7. When the construction of the normalised address fails on an address of the
  zone that is being resolved (the INSEE look-up having returned, and the addresses
  before it in the zone having been completed), the failure leaves
  \<open>extract_adresses_commune\<close> and then \<open>parse_arrete\<close>: the analysis of the whole
  document ends with that failure, and no result is returned. The page concerned has
  a non-empty body and every page before it left the address list empty, which is
  when the page loop calls the extraction.
\<close>

theorem incoherent_address_aborts:
  assumes "any_page e fp_txt_in"
      and "pages_body (doc_content e fp_pdf_in fp_txt_in) = pre @ b # post"
      and "\<forall>b' \<in> set pre.
             page_sans_adresse e (path_name fp_pdf_in) (doc_hint e fp_pdf_in fp_txt_in) b'"
      and "b \<noteq> []"
      and "get_adr_doc e b = z # zs"
      and "zone_adresses z = ok @ x # rest"
      and "\<forall>x' \<in> set ok. \<exists>a. snd (adresse_loop_body e (path_name fp_pdf_in)
             (doc_hint e fp_pdf_in fp_txt_in) (adresse_brute z) x') = Inr a"
      and "get_codeinsee e (determine_commune e (adr_ville x) (doc_hint e fp_pdf_in fp_txt_in))
             (adr_cpostal x) = Inr ci"
      and "create_adresse_normalisee e (adr_num x) (adr_ind x) (adr_voie x) (adr_compl x)
             (if falsy (adr_cpostal x)
              then get_codepostal e
                     (determine_commune e (adr_ville x) (doc_hint e fp_pdf_in fp_txt_in)) ci
              else adr_cpostal x)
             (determine_commune e (adr_ville x) (doc_hint e fp_pdf_in fp_txt_in)) = Inl err"
  shows "snd (extract_adresses_commune e (path_name fp_pdf_in) b
                (doc_hint e fp_pdf_in fp_txt_in)) = Inl err \<and>
         snd (parse_arrete e fp_pdf_in fp_txt_in) = Inl err"
proof -
  let ?fn = "path_name fp_pdf_in" and ?h = "doc_hint e fp_pdf_in fp_txt_in"
  from adresse_loop_body_create_fails [OF assms(8,9)]
  have "snd (adresse_loop_body e ?fn ?h (adresse_brute z) x) = Inl err" .
  from adresse_loop_Inl [OF assms(7) this]
  have "snd (adresse_loop e ?fn ?h (adresse_brute z) (zone_adresses z)) = Inl err"
    by (simp add: assms(6))
  with extract_zone(1) [OF assms(5)]
  have x: "snd (extract_adresses_commune e ?fn b ?h) = Inl err" by simp
  have "st_adresses (init_state (arretes_init e (pages_cont (doc_content e fp_pdf_in fp_txt_in)))) = []"
    by (simp add: init_state_def)
  from pages_loop_Inl [OF this assms(3,4) x]
  have "snd (doc_loop e fp_pdf_in fp_txt_in) = Inl err"
    by (simp add: doc_loop_def assms(2))
  then have "snd (parse_arrete e fp_pdf_in fp_txt_in) = Inl err"
    unfolding parse_arrete_any_page [OF assms(1)]
    by (cases "doc_loop e fp_pdf_in fp_txt_in") (auto split: sum.splits)
  with x show ?thesis by simp
qed

theorem incoherent_address_aborts_witness:
  "any_page ex_env [''incoherent.txt''] \<and>
   pages_body (doc_content ex_env [''d'', ''doc.pdf''] [''incoherent.txt'']) = [''r1''] \<and>
   get_adr_doc ex_env ''r1'' = [\<lparr>adresse_brute = ''zone D'', zone_adresses = [ex_adr_sans_ville]\<rparr>] \<and>
   get_codeinsee ex_env None None = Inr None \<and>
   create_adresse_normalisee ex_env (Some ''3'') None (Some ''rue Z'') None None None
     = Inl (OtherException ''adresse incoherente'') \<and>
   snd (parse_arrete ex_env [''d'', ''doc.pdf''] [''incoherent.txt''])
     = Inl (OtherException ''adresse incoherente'')"
proof -
  let ?fp = "[''d'', ''doc.pdf'']" and ?ft = "[''incoherent.txt'']"
  have h: "doc_hint ex_env ?fp ?ft = None"
    by (simp add: doc_hint_def ex_incoherent_content pages_cont_def adr_commune_maire_def)
  have b: "pages_body (doc_content ex_env ?fp ?ft) = [] @ ''r1'' # []"
    by (simp add: ex_incoherent_content pages_body_def)
  have p: "\<forall>b' \<in> set []. page_sans_adresse ex_env (path_name ?fp) (doc_hint ex_env ?fp ?ft) b'"
    by simp
  have n: "''r1'' \<noteq> []" by simp
  have g: "get_adr_doc ex_env ''r1'' =
             \<lparr>adresse_brute = ''zone D'', zone_adresses = [ex_adr_sans_ville]\<rparr> # []"
    by (simp add: ex_env_def)
  have z: "zone_adresses \<lparr>adresse_brute = ''zone D'', zone_adresses = [ex_adr_sans_ville]\<rparr>
             = [] @ ex_adr_sans_ville # []" by simp
  have o: "\<forall>x' \<in> set []. \<exists>a. snd (adresse_loop_body ex_env (path_name ?fp)
             (doc_hint ex_env ?fp ?ft)
             (adresse_brute \<lparr>adresse_brute = ''zone D'', zone_adresses = [ex_adr_sans_ville]\<rparr>) x')
             = Inr a" by simp
  have c: "get_codeinsee ex_env
             (determine_commune ex_env (adr_ville ex_adr_sans_ville) (doc_hint ex_env ?fp ?ft))
             (adr_cpostal ex_adr_sans_ville) = Inr None"
    unfolding h by (simp add: ex_env_def ex_adr_sans_ville_def falsy_def)
  have k: "create_adresse_normalisee ex_env (adr_num ex_adr_sans_ville) (adr_ind ex_adr_sans_ville)
             (adr_voie ex_adr_sans_ville) (adr_compl ex_adr_sans_ville)
             (if falsy (adr_cpostal ex_adr_sans_ville)
              then get_codepostal ex_env
                     (determine_commune ex_env (adr_ville ex_adr_sans_ville)
                        (doc_hint ex_env ?fp ?ft)) None
              else adr_cpostal ex_adr_sans_ville)
             (determine_commune ex_env (adr_ville ex_adr_sans_ville) (doc_hint ex_env ?fp ?ft))
           = Inl (OtherException ''adresse incoherente'')"
    unfolding h by (simp add: ex_env_def ex_adr_sans_ville_def falsy_def)
  have v: "get_codeinsee ex_env None None = Inr None"
    "create_adresse_normalisee ex_env (Some ''3'') None (Some ''rue Z'') None None None
       = Inl (OtherException ''adresse incoherente'')"
    by (simp_all add: ex_env_def falsy_def)
  from incoherent_address_aborts [OF ex_any_page(4) b p n g z o c k]
  show ?thesis using ex_any_page(4) b g v by simp
qed

section \<open>Notified parties\<close>

text \<open>
  Claim C8. The three accumulators of notified parties (owners, syndics, managers) are
  sets of normalised strings: at the end of the page loop each one is exactly the set
  of the normalised detections of its detector over the pages with a non-empty body.
  Hence two detections on different pages whose normalised strings are identical are
  one and the same element of the set.
\<close>

theorem notified_parties_sets:
  assumes "any_page e fp_txt_in"
      and "doc_loop e fp_pdf_in fp_txt_in = (l, Inr st)"
  shows "st_proprios st =
           detections e (get_proprio e) (pages_body (doc_content e fp_pdf_in fp_txt_in)) \<and>
         st_syndics st =
           detections e (get_syndic e) (pages_body (doc_content e fp_pdf_in fp_txt_in)) \<and>
         st_gests st =
           detections e (get_gest e) (pages_body (doc_content e fp_pdf_in fp_txt_in))"
  using doc_loop_sets [OF assms(2)] by simp

theorem notified_parties_sets_witness:
  "any_page ex_env [''doc.txt''] \<and>
   pages_body (doc_content ex_env [''d'', ''doc.pdf''] [''doc.txt'']) = [''p1'', ''p2'', ''p3''] \<and>
   get_proprio ex_env ''p1'' = Some ''Dupont'' \<and>
   get_proprio ex_env ''p3'' = Some ''DUPONT'' \<and>
   normalize_string ex_env ''DUPONT'' = normalize_string ex_env ''Dupont'' \<and>
   detections ex_env (get_proprio ex_env) [''p1'', ''p2'', ''p3''] = {''Dupont''} \<and>
   card (st_proprios (projr (snd (doc_loop ex_env [''d'', ''doc.pdf''] [''doc.txt''])))) = 1"
proof -
  obtain l r where lr: "doc_loop ex_env [''d'', ''doc.pdf''] [''doc.txt''] = (l, r)"
    by (cases "doc_loop ex_env [''d'', ''doc.pdf''] [''doc.txt'']")
  with ex_doc_loop_sets(1) have "\<not> isl r" by simp
  then obtain st where "r = Inr st" by (cases r) auto
  with lr have d: "doc_loop ex_env [''d'', ''doc.pdf''] [''doc.txt''] = (l, Inr st)" by simp
  have g: "get_proprio ex_env ''p1'' = Some ''Dupont''" "get_proprio ex_env ''p3'' = Some ''DUPONT''"
    "normalize_string ex_env ''DUPONT'' = normalize_string ex_env ''Dupont''"
    by (simp_all add: ex_env_def)
  from notified_parties_sets [OF ex_any_page(1) d] ex_doc_loop_sets(2)
  show ?thesis using g ex_any_page(1) by (simp add: d ex_doc_bodies)
qed

text \<open>
  Claim C9. A document that has some text and is analysed to the end yields exactly one
  record of notified parties. The record carries the document's INSEE code: the value
  of the variable \<open>codeinsee\<close> at the end of the page loop, which is the code of the
  first address of the result, that is of the first address that the extraction
  returns on the first page where it returns any, and none when no page gives an
  address. Each identifier (owner, syndic, manager) is absent when the set of the
  normalised detections of its detector is empty, in particular when the detector
  found nothing on any page with a non-empty body, and is otherwise the element of
  that set that \<open>list(s)[0]\<close> gives; the three other fields are the fixed strings.
\<close>

theorem one_notified_parties_record:
  assumes "any_page e fp_txt_in"
      and "parse_arrete e fp_pdf_in fp_txt_in = (l, Inr r)"
  shows "\<exists>n l' st.
           notifies r = [n] \<and>
           doc_loop e fp_pdf_in fp_txt_in = (l', Inr st) \<and>
           adresses r = st_adresses st \<and>
           notifie_codeinsee n = st_codeinsee st \<and>
           notifie_codeinsee n = (case adresses r of [] \<Rightarrow> None | a # _ \<Rightarrow> codeinsee a) \<and>
           (((\<forall>b \<in> set (pages_body (doc_content e fp_pdf_in fp_txt_in)).
                page_sans_adresse e (path_name fp_pdf_in) (doc_hint e fp_pdf_in fp_txt_in) b) \<and>
             notifie_codeinsee n = None) \<or>
            (\<exists>pre b post a as.
               pages_body (doc_content e fp_pdf_in fp_txt_in) = pre @ b # post \<and>
               (\<forall>b' \<in> set pre.
                  page_sans_adresse e (path_name fp_pdf_in) (doc_hint e fp_pdf_in fp_txt_in) b') \<and>
               b \<noteq> [] \<and>
               snd (extract_adresses_commune e (path_name fp_pdf_in) b
                      (doc_hint e fp_pdf_in fp_txt_in)) = Inr (a # as) \<and>
               notifie_codeinsee n = codeinsee a)) \<and>
           id_proprio n =
             (if detections e (get_proprio e) (pages_body (doc_content e fp_pdf_in fp_txt_in)) = {}
              then None
              else Some (set_first e (detections e (get_proprio e)
                           (pages_body (doc_content e fp_pdf_in fp_txt_in))))) \<and>
           id_syndic n =
             (if detections e (get_syndic e) (pages_body (doc_content e fp_pdf_in fp_txt_in)) = {}
              then None
              else Some (set_first e (detections e (get_syndic e)
                           (pages_body (doc_content e fp_pdf_in fp_txt_in))))) \<and>
           id_gest n =
             (if detections e (get_gest e) (pages_body (doc_content e fp_pdf_in fp_txt_in)) = {}
              then None
              else Some (set_first e (detections e (get_gest e)
                           (pages_body (doc_content e fp_pdf_in fp_txt_in))))) \<and>
           proprio n = ''TODO_proprio'' \<and> syndic n = ''TODO_syndic'' \<and> gest n = ''TODO_gest'' \<and>
           ((\<forall>b \<in> set (pages_body (doc_content e fp_pdf_in fp_txt_in)).
               b \<noteq> [] \<longrightarrow> get_proprio e b = None) \<longrightarrow> id_proprio n = None) \<and>
           ((\<forall>b \<in> set (pages_body (doc_content e fp_pdf_in fp_txt_in)).
               b \<noteq> [] \<longrightarrow> get_syndic e b = None) \<longrightarrow> id_syndic n = None) \<and>
           ((\<forall>b \<in> set (pages_body (doc_content e fp_pdf_in fp_txt_in)).
               b \<noteq> [] \<longrightarrow> get_gest e b = None) \<longrightarrow> id_gest n = None)"
proof -
  let ?fn = "path_name fp_pdf_in" and ?h = "doc_hint e fp_pdf_in fp_txt_in"
  let ?bs = "pages_body (doc_content e fp_pdf_in fp_txt_in)"
  from parse_arrete_Inr [OF assms] obtain l' st where
    lp: "doc_loop e fp_pdf_in fp_txt_in = (l', Inr st)" and
    r: "r = finalize e (path_name fp_pdf_in) fp_pdf_in st" by blast
  define n where
    "n = \<lparr>id_proprio = (if st_proprios st \<noteq> {} then Some (set_first e (st_proprios st)) else None),
          proprio = ''TODO_proprio'',
          id_syndic = (if st_syndics st \<noteq> {} then Some (set_first e (st_syndics st)) else None),
          syndic = ''TODO_syndic'',
          id_gest = (if st_gests st \<noteq> {} then Some (set_first e (st_gests st)) else None),
          gest = ''TODO_gest'',
          notifie_codeinsee = st_codeinsee st\<rparr>"
  have nr: "notifies r = [n]" by (simp add: r finalize_fields n_def)
  have ar: "adresses r = st_adresses st" by (simp add: r finalize_fields)
  have nc: "notifie_codeinsee n = st_codeinsee st" by (simp add: n_def)
  from doc_loop_codes [OF lp]
  have c: "st_codeinsee st = (case st_adresses st of [] \<Rightarrow> None | a # _ \<Rightarrow> codeinsee a)"
    by (simp add: codes_from_first_def split: list.splits)
  have i: "st_adresses (init_state (arretes_init e (pages_cont (doc_content e fp_pdf_in fp_txt_in)))) = []"
    by (simp add: init_state_def)
  have d: "((\<forall>b \<in> set ?bs. page_sans_adresse e ?fn ?h b) \<and> notifie_codeinsee n = None) \<or>
           (\<exists>pre b post a as. ?bs = pre @ b # post \<and>
              (\<forall>b' \<in> set pre. page_sans_adresse e ?fn ?h b') \<and> b \<noteq> [] \<and>
              snd (extract_adresses_commune e ?fn b ?h) = Inr (a # as) \<and>
              notifie_codeinsee n = codeinsee a)"
  proof -
    from pages_loop_adresses_found [OF i lp [unfolded doc_loop_def]] consider
      "st_adresses st = []" "\<forall>b \<in> set ?bs. page_sans_adresse e ?fn ?h b" |
      pre b post where "?bs = pre @ b # post"
        "\<forall>b' \<in> set pre. page_sans_adresse e ?fn ?h b'" "b \<noteq> []" "st_adresses st \<noteq> []"
        "snd (extract_adresses_commune e ?fn b ?h) = Inr (st_adresses st)"
      by blast
    then show ?thesis
    proof cases
      case 1
      with c nc show ?thesis by simp
    next
      case 2
      from 2(4) obtain a as where aa: "st_adresses st = a # as" by (cases "st_adresses st") auto
      with c nc have "notifie_codeinsee n = codeinsee a" by simp
      with 2(1,2,3,5) aa show ?thesis by metis
    qed
  qed
  note s = doc_loop_sets [OF lp]
  have ip: "id_proprio n = (if detections e (get_proprio e) ?bs = {} then None
              else Some (set_first e (detections e (get_proprio e) ?bs)))"
    by (simp add: n_def s(1))
  have isy: "id_syndic n = (if detections e (get_syndic e) ?bs = {} then None
              else Some (set_first e (detections e (get_syndic e) ?bs)))"
    by (simp add: n_def s(2))
  have ig: "id_gest n = (if detections e (get_gest e) ?bs = {} then None
              else Some (set_first e (detections e (get_gest e) ?bs)))"
    by (simp add: n_def s(3))
  have t: "proprio n = ''TODO_proprio''" "syndic n = ''TODO_syndic''" "gest n = ''TODO_gest''"
    by (simp_all add: n_def)
  have p0: "(\<forall>b \<in> set ?bs. b \<noteq> [] \<longrightarrow> get_proprio e b = None) \<longrightarrow> id_proprio n = None"
    using detections_empty [of ?bs "get_proprio e" e] ip by simp
  have s0: "(\<forall>b \<in> set ?bs. b \<noteq> [] \<longrightarrow> get_syndic e b = None) \<longrightarrow> id_syndic n = None"
    using detections_empty [of ?bs "get_syndic e" e] isy by simp
  have g0: "(\<forall>b \<in> set ?bs. b \<noteq> [] \<longrightarrow> get_gest e b = None) \<longrightarrow> id_gest n = None"
    using detections_empty [of ?bs "get_gest e" e] ig by simp
  have cr: "notifie_codeinsee n = (case adresses r of [] \<Rightarrow> None | a # _ \<Rightarrow> codeinsee a)"
    using c nc ar by simp
  show ?thesis
    apply (rule exI [of _ n], rule exI [of _ l'], rule exI [of _ st])
    apply (intro conjI)
    using nr lp ar nc cr d ip isy ig t p0 s0 g0 by blast+
qed

theorem one_notified_parties_record_witness:
  "any_page ex_env [''doc.txt''] \<and>
   st_codeinsee (projr (snd (doc_loop ex_env [''d'', ''doc.pdf''] [''doc.txt''])))
     = Some ''13201'' \<and>
   map codeinsee (projr (snd (extract_adresses_commune ex_env ''doc.pdf'' ''p3''
          (doc_hint ex_env [''d'', ''doc.pdf''] [''doc.txt'']))))
     = [Some ''13201''] \<and>
   notifies (projr (snd (parse_arrete ex_env [''d'', ''doc.pdf''] [''doc.txt''])))
     = [\<lparr>id_proprio = Some ''Dupont'', proprio = ''TODO_proprio'', id_syndic = None,
         syndic = ''TODO_syndic'', id_gest = None, gest = ''TODO_gest'',
         notifie_codeinsee = Some ''13201''\<rparr>] \<and>
   any_page ex_env [''simple.txt''] \<and>
   pages_body (doc_content ex_env [''d'', ''doc.pdf''] [''simple.txt'']) = [''q1''] \<and>
   get_proprio ex_env ''q1'' = None \<and> get_syndic ex_env ''q1'' = None \<and>
   get_gest ex_env ''q1'' = None \<and>
   notifies (projr (snd (parse_arrete ex_env [''d'', ''doc.pdf''] [''simple.txt''])))
     = [\<lparr>id_proprio = None, proprio = ''TODO_proprio'', id_syndic = None,
         syndic = ''TODO_syndic'', id_gest = None, gest = ''TODO_gest'',
         notifie_codeinsee = None\<rparr>]"
proof -
  have g: "get_proprio ex_env ''q1'' = None" "get_syndic ex_env ''q1'' = None"
    "get_gest ex_env ''q1'' = None"
    by (simp_all add: ex_env_def)
  have b: "pages_body (doc_content ex_env [''d'', ''doc.pdf''] [''simple.txt'']) = [''q1'']"
    by (simp add: ex_simple_content pages_body_def)
  from one_notified_parties_record [OF ex_any_page(1) ex_doc_result] obtain n l' st where
    1: "notifies (projr (snd (parse_arrete ex_env [''d'', ''doc.pdf''] [''doc.txt'']))) = [n]"
       "doc_loop ex_env [''d'', ''doc.pdf''] [''doc.txt''] = (l', Inr st)"
       "notifie_codeinsee n = st_codeinsee st"
    unfolding ex_doc_result snd_conv sum.sel by blast
  from one_notified_parties_record [OF ex_any_page(2) ex_simple_result] obtain n' where
    2: "notifies (projr (snd (parse_arrete ex_env [''d'', ''doc.pdf''] [''simple.txt'']))) = [n']"
       "id_proprio n' = None" "id_syndic n' = None" "id_gest n' = None"
    unfolding ex_simple_result snd_conv sum.sel using g b by auto
  from 1 ex_doc_loop_state(1) have "notifie_codeinsee n = Some ''13201''" by simp
  with 1(1) 2 show ?thesis
    using g b ex_any_page(1,2) ex_doc_loop_state(1,3)
    by (simp add: ex_doc_result ex_simple_result)
qed

section \<open>Parcels\<close>

text \<open>
  Claim C10. In the result of a document that has some text and is analysed to the end,
  every parcel row carries the document's final INSEE code: that of the first resolved
  address, or none when no address was resolved. This holds whatever codes were current
  when the parcel reference was normalised (in the example the reference was computed
  on page 1 with both codes absent, the address being found on page 3).
\<close>

theorem parcels_tagged_with_final_code:
  assumes "any_page e fp_txt_in"
      and "parse_arrete e fp_pdf_in fp_txt_in = (l, Inr r)"
  shows "\<forall>p \<in> parcelles r.
           parcelle_codeinsee p = (case adresses r of [] \<Rightarrow> None | a # _ \<Rightarrow> codeinsee a)"
proof -
  from parse_arrete_Inr [OF assms] obtain l' st where
    lp: "doc_loop e fp_pdf_in fp_txt_in = (l', Inr st)" and
    r: "r = finalize e (path_name fp_pdf_in) fp_pdf_in st" by blast
  from doc_loop_codes [OF lp]
  have c: "st_codeinsee st = (case st_adresses st of [] \<Rightarrow> None | a # _ \<Rightarrow> codeinsee a)"
    by (simp add: codes_from_first_def split: list.splits)
  show ?thesis
    using c by (auto simp: r finalize_fields)
qed

theorem parcels_tagged_with_final_code_witness:
  "any_page ex_env [''doc.txt''] \<and>
   generate_refcadastrale_norm ex_env None ''AB 12'' ''doc.pdf'' None = ''?AB 12'' \<and>
   map codeinsee (adresses (projr (snd (parse_arrete ex_env [''d'', ''doc.pdf''] [''doc.txt'']))))
     = [Some ''13201''] \<and>
   parcelles (projr (snd (parse_arrete ex_env [''d'', ''doc.pdf''] [''doc.txt''])))
     = {\<lparr>ref_cad = ''?AB 12'', parcelle_codeinsee = Some ''13201''\<rparr>}"
proof -
  have g: "generate_refcadastrale_norm ex_env None ''AB 12'' ''doc.pdf'' None = ''?AB 12''"
    by (simp add: ex_env_def)
  from parcels_tagged_with_final_code [OF ex_any_page(1) ex_doc_result]
  show ?thesis using g ex_any_page(1) by (simp add: ex_doc_result)
qed

end
